theory Spec2Isabelle
  imports Complex_Main "HOL-Library.AList"
begin

section \<open>The Milvus vector store client (memory_manager/vector_db/milvus.py)\<close>

text \<open>
  The class \<open>MilvusDatabase\<close> keeps a dictionary of collection handles and talks to a
  Milvus engine through the pymilvus library. The client is embedded as a state and
  exception monad over a record \<open>world\<close> that holds the object's attributes, the logger's
  output and the engine. Every \<open>try\<close>/\<open>except\<close> of the source is a \<open>try_except\<close> of
  the model, every \<open>raise\<close> and every failing library call is an \<open>Inl\<close> result.
\<close>

subsection \<open>Data\<close>

text \<open>pymilvus \<open>DataType\<close>. The source tells \<open>VARCHAR\<close> and \<open>FLOAT_VECTOR\<close> from the rest.\<close>

datatype DataType =
  BOOL | INT8 | INT16 | INT32 | INT64 | FLOAT | DOUBLE | VARCHAR | JSON
  | BINARY_VECTOR | FLOAT_VECTOR

text \<open>Python values stored in a record, and a record (\<open>Dict[str, Any]\<close>) as an
  association list in insertion order.\<close>

datatype pyval = VNone | VBool bool | VInt int | VFloat real | VStr string | VVec "real list"

type_synonym row = "(string \<times> pyval) list"

text \<open>Index and search parameters are nested dictionaries; the empty list is \<open>{}\<close>.\<close>

datatype param = PStr string | PInt int | PDict "(string \<times> param) list"

type_synonym params = "(string \<times> param) list"

text \<open>One entry of \<open>schema["fields"]\<close>: a dictionary, each key present or absent.\<close>

record field_definition =
  fd_name :: "string option"
  fd_dtype :: "DataType option"
  fd_is_primary :: "bool option"
  fd_auto_id :: "bool option"
  fd_is_nullable :: "bool option"
  fd_max_length :: "int option"
  fd_dim :: "int option"
  fd_index_params :: "params option"

text \<open>The \<open>schema\<close> argument: a dictionary with the keys \<open>fields\<close> and \<open>description\<close>.\<close>

record schema =
  sch_fields :: "field_definition list option"
  sch_description :: "string option"

text \<open>pymilvus \<open>FieldSchema\<close>: \<open>max_length\<close> and \<open>dim\<close> are type parameters, absent
  (\<open>None\<close>) on a field that was built without them.\<close>

record FieldSchema =
  fs_name :: string
  fs_dtype :: DataType
  fs_max_length :: "int option"
  fs_dim :: "int option"
  fs_is_primary :: bool
  fs_auto_id :: bool
  fs_is_nullable :: bool

text \<open>The calls the client makes on pymilvus, with their arguments, as they are recorded
  in the engine's trace.\<close>

datatype call =
    Connect string string string
  | Disconnect string
  | ListCollections
  | HasCollection string
  | GetCollection string
  | CreateCollection string "FieldSchema list" string
  | Indexes string
  | Load string
  | LoadState string
  | CreateIndex string string params
  | Flush string
  | Insert string row
  | Query string string "string list" "(string \<times> string) option" "int option"
  | Search string "real list list" string params int "string option"
  | Delete string string
  | Release string
  | DropCollection string

datatype error =
    ValueError string
  | KeyError string
  | IndexError
  | AttributeError
  | TypeError
  | ConnectionNotExistException
  | SchemaNotReadyException string
  | MilvusException call

text \<open>A hit as the engine returns it: each of the attributes \<open>id\<close>, \<open>distance\<close> and
  \<open>entity\<close> present or not (\<open>hasattr\<close>), and an entity that has a \<open>to_dict\<close> method
  or not, with what \<open>to_dict()\<close>, respectively \<open>dict(entity)\<close>, yields.\<close>

datatype raw_entity = WithToDict "error + row" | WithoutToDict "error + row"

record raw_hit =
  hit_id :: "pyval option"
  hit_distance :: "real option"
  hit_entity :: "raw_entity option"

text \<open>An element of the list \<open>search\<close> returns: \<open>{"id", "distance", "entity"}\<close>.\<close>

record SearchHit =
  sh_id :: pyval
  sh_distance :: real
  sh_entity :: row

subsection \<open>The engine\<close>

text \<open>
  The engine and the pymilvus library are not part of the repository. The model keeps
  what the client's calls read and write: per collection its schema, its indexes, its load
  state, the rows that were flushed and those that were not yet.

  \<open>r_faults\<close> is the set of the numbers of the calls that fail for a reason of the engine's
  own (network, timeout, validation); a theorem for every \<open>remote\<close> holds for every
  pattern of such failures. \<open>r_accepts\<close> is the schema validation of the library and the
  engine; \<open>r_query_answer\<close>, \<open>r_search_answer\<close> and \<open>r_delete_answer\<close> are the engine's
  evaluation of filter expressions and of vector similarity. All are parameters.
\<close>

record collection_data =
  c_fields :: "FieldSchema list"
  c_description :: string
  c_indexes :: "(string \<times> params) list"
  c_loaded :: bool
  c_rows :: "row list"
  c_pending :: "row list"

record remote =
  r_connected :: bool
  r_store :: "(string \<times> collection_data) list"
  r_calls :: "call list"
  r_faults :: "nat set"
  r_accepts :: "FieldSchema list \<Rightarrow> bool"
  r_query_answer :: "call \<Rightarrow> collection_data \<Rightarrow> row list"
  r_search_answer :: "call \<Rightarrow> collection_data \<Rightarrow> raw_hit list list"
  r_delete_answer :: "string \<Rightarrow> row list \<Rightarrow> row list"

text \<open>A pymilvus \<open>Collection\<close> object: the name it is bound to and the schema it read
  when it was constructed.\<close>

datatype Collection = Collection (col_name: string) (col_schema: "FieldSchema list")

datatype level = Debug | Info | Warning | Error

text \<open>The attributes of a \<open>MilvusDatabase\<close> object (\<open>collections\<close>, \<open>host\<close>, \<open>port\<close>),
  the lines its logger wrote, the reading of \<open>time.time()\<close> in seconds, and the engine.\<close>

record world =
  collections :: "(string \<times> Collection) list"
  host :: string
  port :: string
  logger :: "(level \<times> string) list"
  now :: int
  remote :: remote

definition connection_alias :: string where
  "connection_alias = ''default''"

subsection \<open>State and exceptions\<close>

type_synonym 'a prog = "world \<Rightarrow> (error + 'a) \<times> world"

definition ret :: "'a \<Rightarrow> 'a prog" where
  "ret x w = (Inr x, w)"

definition raise :: "error \<Rightarrow> 'a prog" where
  "raise e w = (Inl e, w)"

definition bnd :: "'a prog \<Rightarrow> ('a \<Rightarrow> 'b prog) \<Rightarrow> 'b prog" where
  "bnd m f w = (case m w of (Inl e, w') \<Rightarrow> (Inl e, w') | (Inr x, w') \<Rightarrow> f x w')"

text \<open>\<open>try: m except Exception as e: h e\<close>. The state reached when \<open>m\<close> raised is kept.\<close>

definition try_except :: "'a prog \<Rightarrow> (error \<Rightarrow> 'a prog) \<Rightarrow> 'a prog" where
  "try_except m h w = (case m w of (Inl e, w') \<Rightarrow> h e w' | (Inr x, w') \<Rightarrow> (Inr x, w'))"

definition lift :: "error + 'a \<Rightarrow> 'a prog" where
  "lift v w = (v, w)"

definition logmsg :: "level \<Rightarrow> string \<Rightarrow> unit prog" where
  "logmsg l msg w = (Inr (), w\<lparr>logger := logger w @ [(l, msg)]\<rparr>)"

text \<open>\<open>d[key]\<close> on a dictionary key that may be absent.\<close>

definition getitem :: "'a option \<Rightarrow> string \<Rightarrow> error + 'a" where
  "getitem v key = (case v of None \<Rightarrow> Inl (KeyError key) | Some x \<Rightarrow> Inr x)"

text \<open>\<open>d.get(key, default)\<close>.\<close>

definition get_default :: "'a option \<Rightarrow> 'a \<Rightarrow> 'a" where
  "get_default v d = (case v of None \<Rightarrow> d | Some x \<Rightarrow> x)"

definition time_time :: "int prog" where
  "time_time w = (Inr (now w), w)"

subsection \<open>The dictionary \<open>self.collections\<close>\<close>

definition cache_get :: "string \<Rightarrow> Collection option prog" where
  "cache_get name w = (Inr (map_of (collections w) name), w)"

definition cache_getitem :: "string \<Rightarrow> Collection prog" where
  "cache_getitem name w = (getitem (map_of (collections w) name) name, w)"

definition cache_put :: "string \<Rightarrow> Collection \<Rightarrow> unit prog" where
  "cache_put name col w = (Inr (), w\<lparr>collections := AList.update name col (collections w)\<rparr>)"

definition cache_del :: "string \<Rightarrow> unit prog" where
  "cache_del name w = (Inr (), w\<lparr>collections := AList.delete name (collections w)\<rparr>)"

definition cache_clear :: "unit prog" where
  "cache_clear w = (Inr (), w\<lparr>collections := []\<rparr>)"

subsection \<open>The pymilvus calls\<close>

text \<open>
  A call through a connection: it is recorded, it raises when the alias has no
  connection, it raises when the engine fails on it, and otherwise it does what \<open>sem\<close>
  says on the engine's state.
\<close>

definition remote_call :: "call \<Rightarrow> (remote \<Rightarrow> error + 'a \<times> remote) \<Rightarrow> 'a prog" where
  "remote_call c sem w =
     (let r = remote w;
          r1 = r\<lparr>r_calls := r_calls r @ [c]\<rparr>
      in if \<not> r_connected r then (Inl ConnectionNotExistException, w\<lparr>remote := r1\<rparr>)
         else if length (r_calls r) \<in> r_faults r then (Inl (MilvusException c), w\<lparr>remote := r1\<rparr>)
         else (case sem r1 of
                 Inl e \<Rightarrow> (Inl e, w\<lparr>remote := r1\<rparr>)
               | Inr (x, r2) \<Rightarrow> (Inr x, w\<lparr>remote := r2\<rparr>)))"

text \<open>A call on one collection: it fails when the engine has no collection of that name.\<close>

definition on_collection ::
  "call \<Rightarrow> string \<Rightarrow> (remote \<Rightarrow> collection_data \<Rightarrow> error + 'a \<times> collection_data) \<Rightarrow> 'a prog" where
  "on_collection c name f =
     remote_call c (\<lambda>r.
       case map_of (r_store r) name of
         None \<Rightarrow> Inl (MilvusException c)
       | Some cd \<Rightarrow>
           (case f r cd of
              Inl e \<Rightarrow> Inl e
            | Inr (x, cd') \<Rightarrow> Inr (x, r\<lparr>r_store := AList.update name cd' (r_store r)\<rparr>)))"

definition connections_has_connection :: "bool prog" where
  "connections_has_connection w = (Inr (r_connected (remote w)), w)"

text \<open>\<open>connections.connect\<close> needs no connection; it fails when the engine does.\<close>

definition connections_connect :: "unit prog" where
  "connections_connect w =
     (let r = remote w;
          c = Connect connection_alias (host w) (port w);
          r1 = r\<lparr>r_calls := r_calls r @ [c]\<rparr>
      in if length (r_calls r) \<in> r_faults r then (Inl (MilvusException c), w\<lparr>remote := r1\<rparr>)
         else (Inr (), w\<lparr>remote := r1\<lparr>r_connected := True\<rparr>\<rparr>))"

definition connections_disconnect :: "unit prog" where
  "connections_disconnect =
     remote_call (Disconnect connection_alias) (\<lambda>r. Inr ((), r\<lparr>r_connected := False\<rparr>))"

definition utility_list_collections :: "string list prog" where
  "utility_list_collections = remote_call ListCollections (\<lambda>r. Inr (map fst (r_store r), r))"

definition utility_has_collection :: "string \<Rightarrow> bool prog" where
  "utility_has_collection name =
     remote_call (HasCollection name) (\<lambda>r. Inr (map_of (r_store r) name \<noteq> None, r))"

text \<open>\<open>utility.load_state\<close>: the state under the name the source compares it with.\<close>

definition utility_load_state :: "string \<Rightarrow> string prog" where
  "utility_load_state name =
     remote_call (LoadState name) (\<lambda>r.
       Inr (case map_of (r_store r) name of
              None \<Rightarrow> ''NotExist''
            | Some cd \<Rightarrow> if c_loaded cd then ''Loaded'' else ''NotLoad'', r))"

definition utility_drop_collection :: "string \<Rightarrow> unit prog" where
  "utility_drop_collection name =
     remote_call (DropCollection name) (\<lambda>r. Inr ((), r\<lparr>r_store := AList.delete name (r_store r)\<rparr>))"

text \<open>\<open>Collection(name)\<close>: a handle on a collection that exists.\<close>

definition Collection_existing :: "string \<Rightarrow> Collection prog" where
  "Collection_existing name =
     remote_call (GetCollection name) (\<lambda>r.
       case map_of (r_store r) name of
         None \<Rightarrow> Inl (SchemaNotReadyException name)
       | Some cd \<Rightarrow> Inr (Collection name (c_fields cd), r))"

text \<open>\<open>Collection(name=..., schema=CollectionSchema(fields, description=...))\<close>: creates
  the collection when the name is free and the schema is accepted.\<close>

definition new_collection :: "FieldSchema list \<Rightarrow> string \<Rightarrow> collection_data" where
  "new_collection fs d =
     \<lparr>c_fields = fs, c_description = d, c_indexes = [], c_loaded = False,
      c_rows = [], c_pending = []\<rparr>"

definition Collection_create :: "string \<Rightarrow> FieldSchema list \<Rightarrow> string \<Rightarrow> Collection prog" where
  "Collection_create name fs d =
     remote_call (CreateCollection name fs d) (\<lambda>r.
       case map_of (r_store r) name of
         Some cd \<Rightarrow>
           if c_fields cd = fs then Inr (Collection name fs, r)
           else Inl (SchemaNotReadyException name)
       | None \<Rightarrow>
           if r_accepts r fs
           then Inr (Collection name fs, r\<lparr>r_store := r_store r @ [(name, new_collection fs d)]\<rparr>)
           else Inl (MilvusException (CreateCollection name fs d)))"

definition col_indexes :: "Collection \<Rightarrow> (string \<times> params) list prog" where
  "col_indexes col =
     on_collection (Indexes (col_name col)) (col_name col) (\<lambda>r cd. Inr (c_indexes cd, cd))"

definition col_load :: "Collection \<Rightarrow> unit prog" where
  "col_load col =
     on_collection (Load (col_name col)) (col_name col) (\<lambda>r cd. Inr ((), cd\<lparr>c_loaded := True\<rparr>))"

definition col_release :: "Collection \<Rightarrow> unit prog" where
  "col_release col =
     on_collection (Release (col_name col)) (col_name col)
       (\<lambda>r cd. Inr ((), cd\<lparr>c_loaded := False\<rparr>))"

definition col_create_index :: "Collection \<Rightarrow> string \<Rightarrow> params \<Rightarrow> unit prog" where
  "col_create_index col field_name index_params =
     on_collection (CreateIndex (col_name col) field_name index_params) (col_name col)
       (\<lambda>r cd. Inr ((), cd\<lparr>c_indexes := c_indexes cd @ [(field_name, index_params)]\<rparr>))"

definition col_insert :: "Collection \<Rightarrow> row \<Rightarrow> unit prog" where
  "col_insert col item =
     on_collection (Insert (col_name col) item) (col_name col)
       (\<lambda>r cd. Inr ((), cd\<lparr>c_pending := c_pending cd @ [item]\<rparr>))"

definition col_flush :: "Collection \<Rightarrow> unit prog" where
  "col_flush col =
     on_collection (Flush (col_name col)) (col_name col)
       (\<lambda>r cd. Inr ((), cd\<lparr>c_rows := c_rows cd @ c_pending cd, c_pending := []\<rparr>))"

definition col_query ::
  "Collection \<Rightarrow> string \<Rightarrow> string list \<Rightarrow> (string \<times> string) option \<Rightarrow> int option \<Rightarrow> row list prog" where
  "col_query col expr output_fields sort_by limit =
     (let c = Query (col_name col) expr output_fields sort_by limit
      in on_collection c (col_name col) (\<lambda>r cd. Inr (r_query_answer r c cd, cd)))"

text \<open>A vector search names the field it searches (\<open>anns_field\<close>); the engine rejects a
  name that is not a \<open>FLOAT_VECTOR\<close> field of the collection.\<close>

definition is_vector_field :: "FieldSchema list \<Rightarrow> string \<Rightarrow> bool" where
  "is_vector_field fs n = (\<exists>f \<in> set fs. fs_name f = n \<and> fs_dtype f = FLOAT_VECTOR)"

definition col_search ::
  "Collection \<Rightarrow> real list list \<Rightarrow> string \<Rightarrow> params \<Rightarrow> int \<Rightarrow> string option \<Rightarrow> raw_hit list list prog" where
  "col_search col data anns_field param limit expr =
     (let c = Search (col_name col) data anns_field param limit expr
      in on_collection c (col_name col) (\<lambda>r cd.
           if is_vector_field (c_fields cd) anns_field then Inr (r_search_answer r c cd, cd)
           else Inl (MilvusException c)))"

definition col_delete :: "Collection \<Rightarrow> string \<Rightarrow> unit prog" where
  "col_delete col expr =
     on_collection (Delete (col_name col) expr) (col_name col)
       (\<lambda>r cd. Inr ((), cd\<lparr>c_rows := r_delete_answer r expr (c_rows cd)\<rparr>))"

subsection \<open>Connection: \<open>close\<close>, \<open>list_collections\<close>, \<open>connect\<close>, \<open>_ensure_connection\<close>\<close>

definition close :: "unit prog" where
  "close =
     try_except
       (bnd connections_has_connection (\<lambda>c.
          if c then bnd connections_disconnect (\<lambda>_. logmsg Info ''close: disconnected from Milvus'')
          else ret ()))
       (\<lambda>e. logmsg Error ''close: error while disconnecting'')"

definition list_collections :: "string list prog" where
  "list_collections =
     try_except utility_list_collections
       (\<lambda>e. bnd (logmsg Error ''list_collections: could not list the collections'') (\<lambda>_. ret []))"

text \<open>The body of the loop of \<open>connect\<close>, inside its own \<open>try\<close>; \<open>continue\<close> ends it.\<close>

definition connect_one :: "string \<Rightarrow> unit prog" where
  "connect_one col_name' =
     try_except
       (bnd (utility_has_collection col_name') (\<lambda>ex.
          if \<not> ex then logmsg Debug ''connect: collection does not exist''
          else
            bnd (Collection_existing col_name') (\<lambda>col.
            bnd (col_indexes col) (\<lambda>ixs.
              if ixs = [] then logmsg Warning ''connect: collection has no index, not loaded''
              else
                bnd (col_load col) (\<lambda>_.
                bnd (logmsg Debug ''connect: collection loaded'') (\<lambda>_.
                cache_put col_name' col))))))
       (\<lambda>e. logmsg Error ''connect: loading the collection failed'')"

fun connect_loop :: "string list \<Rightarrow> unit prog" where
  "connect_loop [] = ret ()"
| "connect_loop (col_name' # rest) = bnd (connect_one col_name') (\<lambda>_. connect_loop rest)"

definition connect_body :: "unit prog" where
  "connect_body =
     bnd connections_connect (\<lambda>_.
     bnd (logmsg Info ''connect: connected to Milvus'') (\<lambda>_.
     bnd list_collections (\<lambda>existing_collections.
     bnd cache_clear (\<lambda>_.
     connect_loop existing_collections))))"

definition connect :: "unit prog" where
  "connect =
     try_except connect_body
       (\<lambda>e. bnd (logmsg Error ''connect: connecting to Milvus failed'') (\<lambda>_. raise e))"

definition ensure_connection :: "unit prog" where
  "ensure_connection =
     bnd connections_has_connection (\<lambda>c.
       if \<not> c then bnd (logmsg Warning ''_ensure_connection: connection lost, reconnecting'') (\<lambda>_. connect)
       else ret ())"

subsection \<open>\<open>_get_collection\<close>\<close>

text \<open>The methods \<open>_ensure_connection\<close> and \<open>_get_collection\<close> are \<open>ensure_connection\<close>
  and \<open>get_collection\<close> here. A cached \<open>Collection\<close> object is never false.\<close>

definition get_collection :: "string \<Rightarrow> Collection prog" where
  "get_collection collection_name =
     bnd (cache_get collection_name) (\<lambda>cached.
     bnd (case cached of
            Some col \<Rightarrow> ret col
          | None \<Rightarrow>
              bnd (utility_has_collection collection_name) (\<lambda>ex.
                if \<not> ex then raise (ValueError collection_name)
                else
                  bnd (Collection_existing collection_name) (\<lambda>col.
                  bnd (cache_put collection_name col) (\<lambda>_.
                  ret col)))) (\<lambda>col.
     bnd (utility_load_state collection_name) (\<lambda>load_state.
     bnd (if load_state \<noteq> ''Loaded''
          then bnd (logmsg Info ''_get_collection: collection is not loaded, loading'') (\<lambda>_. col_load col)
          else ret ()) (\<lambda>_.
     ret col))))"

subsection \<open>\<open>create_collection\<close>\<close>

definition build_field :: "field_definition \<Rightarrow> error + FieldSchema" where
  "build_field fd =
     (case getitem (fd_name fd) ''name'' of
        Inl e \<Rightarrow> Inl e
      | Inr field_name \<Rightarrow>
         (case getitem (fd_dtype fd) ''dtype'' of
            Inl e \<Rightarrow> Inl e
          | Inr field_type \<Rightarrow>
             (let is_primary = get_default (fd_is_primary fd) False;
                  auto_id = get_default (fd_auto_id fd) False;
                  is_nullable = get_default (fd_is_nullable fd) False
              in if field_type = VARCHAR then
                   (case getitem (fd_max_length fd) ''max_length'' of
                      Inl e \<Rightarrow> Inl e
                    | Inr max_length \<Rightarrow>
                        Inr \<lparr>fs_name = field_name, fs_dtype = field_type,
                             fs_max_length = Some max_length, fs_dim = None,
                             fs_is_primary = is_primary, fs_auto_id = auto_id,
                             fs_is_nullable = False\<rparr>)
                 else if field_type = FLOAT_VECTOR then
                   (case getitem (fd_dim fd) ''dim'' of
                      Inl e \<Rightarrow> Inl e
                    | Inr dim' \<Rightarrow>
                        Inr \<lparr>fs_name = field_name, fs_dtype = field_type,
                             fs_max_length = None, fs_dim = Some dim',
                             fs_is_primary = False, fs_auto_id = False,
                             fs_is_nullable = False\<rparr>)
                 else
                   Inr \<lparr>fs_name = field_name, fs_dtype = field_type, fs_max_length = None,
                        fs_dim = None, fs_is_primary = is_primary, fs_auto_id = auto_id,
                        fs_is_nullable = is_nullable\<rparr>)))"

text \<open>The first loop of \<open>create_collection\<close>: it stops at the first \<open>KeyError\<close>.\<close>

fun build_fields :: "field_definition list \<Rightarrow> error + FieldSchema list" where
  "build_fields [] = Inr []"
| "build_fields (fd # fds) =
     (case build_field fd of
        Inl e \<Rightarrow> Inl e
      | Inr f \<Rightarrow> (case build_fields fds of Inl e \<Rightarrow> Inl e | Inr fs \<Rightarrow> Inr (f # fs)))"

definition default_index_params :: params where
  "default_index_params =
     [(''index_type'', PStr ''IVF_FLAT''), (''metric_type'', PStr ''L2''),
      (''params'', PDict [(''nlist'', PInt 256)])]"

text \<open>One round of the second loop of \<open>create_collection\<close>.\<close>

definition create_index_for :: "string \<Rightarrow> field_definition \<Rightarrow> unit prog" where
  "create_index_for collection_name fd =
     bnd (lift (getitem (fd_dtype fd) ''dtype'')) (\<lambda>dtype.
       if dtype = FLOAT_VECTOR then
         bnd (if get_default (fd_index_params fd) [] = []
              then bnd (logmsg Warning ''create_collection: no index parameters, IVF_FLAT by default'')
                     (\<lambda>_. ret default_index_params)
              else ret (get_default (fd_index_params fd) [])) (\<lambda>index_params.
         bnd (lift (getitem (fd_name fd) ''name'')) (\<lambda>_.
         bnd (logmsg Info ''create_collection: creating the index of the field'') (\<lambda>_.
         bnd (cache_getitem collection_name) (\<lambda>col.
         bnd (lift (getitem (fd_name fd) ''name'')) (\<lambda>field_name.
         bnd (col_create_index col field_name index_params) (\<lambda>_.
         bnd (lift (getitem (fd_name fd) ''name'')) (\<lambda>_.
         logmsg Info ''create_collection: index of the field created'')))))))
       else ret ())"

fun create_indexes :: "string \<Rightarrow> field_definition list \<Rightarrow> unit prog" where
  "create_indexes collection_name [] = ret ()"
| "create_indexes collection_name (fd # fds) =
     bnd (create_index_for collection_name fd) (\<lambda>_. create_indexes collection_name fds)"

definition create_collection_body :: "string \<Rightarrow> schema \<Rightarrow> unit prog" where
  "create_collection_body collection_name schema =
     bnd (utility_has_collection collection_name) (\<lambda>ex.
       if ex then logmsg Info ''create_collection: collection already created''
       else
         bnd (lift (getitem (sch_fields schema) ''fields'')) (\<lambda>fds.
         bnd (lift (build_fields fds)) (\<lambda>fields.
         bnd (Collection_create collection_name fields (get_default (sch_description schema) [])) (\<lambda>col.
         bnd (cache_put collection_name col) (\<lambda>_.
         bnd (logmsg Info ''create_collection: collection created'') (\<lambda>_.
         bnd (lift (getitem (sch_fields schema) ''fields'')) (\<lambda>fds'.
         bnd (create_indexes collection_name fds') (\<lambda>_.
         bnd (cache_getitem collection_name) (\<lambda>col'.
         col_flush col')))))))))"

definition create_collection :: "string \<Rightarrow> schema \<Rightarrow> unit prog" where
  "create_collection collection_name schema =
     try_except (create_collection_body collection_name schema)
       (\<lambda>e. logmsg Error ''create_collection: creating the collection failed'')"

subsection \<open>\<open>insert\<close>\<close>

text \<open>The loop \<open>for item in data\<close> writes \<open>create_time\<close> into each dictionary that has no
  such key; \<open>data[0]\<close> raises \<open>IndexError\<close> on the empty list. The method \<open>insert\<close> is
  \<open>insert_rows\<close> here, and \<open>data'\<close> is the caller's list after the loop.\<close>

definition stamp :: "int \<Rightarrow> row \<Rightarrow> row" where
  "stamp current_time item =
     (if map_of item ''create_time'' = None then item @ [(''create_time'', VInt current_time)]
      else item)"

definition first_item :: "'a list \<Rightarrow> error + 'a" where
  "first_item xs = (case xs of [] \<Rightarrow> Inl IndexError | x # _ \<Rightarrow> Inr x)"

definition insert_body :: "string \<Rightarrow> row list \<Rightarrow> unit prog" where
  "insert_body collection_name data =
     bnd ensure_connection (\<lambda>_.
     bnd (get_collection collection_name) (\<lambda>col.
     bnd time_time (\<lambda>current_time.
     let data' = map (stamp current_time) data in
     bnd (lift (first_item data')) (\<lambda>item.
     bnd (col_insert col item) (\<lambda>_.
     bnd (col_flush col) (\<lambda>_.
     logmsg Info ''insert: inserted len(data) records''))))))"

definition insert_rows :: "string \<Rightarrow> row list \<Rightarrow> unit prog" where
  "insert_rows collection_name data =
     try_except (insert_body collection_name data)
       (\<lambda>e. logmsg Error ''insert: inserting the data failed'')"

subsection \<open>\<open>query\<close> and \<open>search\<close>\<close>

definition query_body :: "string \<Rightarrow> string \<Rightarrow> string list \<Rightarrow> row list prog" where
  "query_body collection_name filters output_fields =
     bnd ensure_connection (\<lambda>_.
     bnd (cache_get collection_name) (\<lambda>cached.
       case cached of
         None \<Rightarrow> raise (ValueError collection_name)
       | Some collection \<Rightarrow>
           bnd (col_load collection) (\<lambda>_.
           col_query collection filters output_fields None None)))"

definition query :: "string \<Rightarrow> string \<Rightarrow> string list \<Rightarrow> row list prog" where
  "query collection_name filters output_fields =
     try_except (query_body collection_name filters output_fields)
       (\<lambda>e. bnd (logmsg Error ''query: query by condition failed'') (\<lambda>_. ret []))"

definition search_params :: params where
  "search_params = [(''metric_type'', PStr ''L2''), (''params'', PDict [(''nprobe'', PInt 10)])]"

definition entity_dict :: "raw_entity \<Rightarrow> error + row" where
  "entity_dict ent = (case ent of WithToDict v \<Rightarrow> v | WithoutToDict v \<Rightarrow> v)"

text \<open>The inner loop of \<open>search\<close>; \<open>result_list\<close> is the list built so far.\<close>

fun search_hits :: "raw_hit list \<Rightarrow> SearchHit list \<Rightarrow> SearchHit list prog" where
  "search_hits [] result_list = ret result_list"
| "search_hits (hit # hits) result_list =
     (case (hit_id hit, hit_distance hit, hit_entity hit) of
        (Some i, Some d, Some ent) \<Rightarrow>
          (case entity_dict ent of
             Inr entity_dict' \<Rightarrow>
               search_hits hits
                 (result_list @ [\<lparr>sh_id = i, sh_distance = d, sh_entity = entity_dict'\<rparr>])
           | Inl AttributeError \<Rightarrow>
               bnd (logmsg Error ''search: entity lacks an attribute'')
                 (\<lambda>_. search_hits hits result_list)
           | Inl _ \<Rightarrow>
               bnd (logmsg Error ''search: unexpected error on a hit'')
                 (\<lambda>_. search_hits hits result_list))
      | _ \<Rightarrow>
          bnd (logmsg Warning ''search: invalid search result object'')
            (\<lambda>_. search_hits hits result_list))"

fun search_results :: "raw_hit list list \<Rightarrow> SearchHit list \<Rightarrow> SearchHit list prog" where
  "search_results [] result_list = ret result_list"
| "search_results (hits # results) result_list =
     bnd (search_hits hits result_list) (\<lambda>result_list'. search_results results result_list')"

definition search_body ::
  "string \<Rightarrow> real list \<Rightarrow> int \<Rightarrow> string option \<Rightarrow> SearchHit list prog" where
  "search_body collection_name query_vector top_k filters =
     bnd ensure_connection (\<lambda>_.
     bnd (cache_get collection_name) (\<lambda>cached.
       case cached of
         None \<Rightarrow> raise (ValueError collection_name)
       | Some collection \<Rightarrow>
           bnd (col_load collection) (\<lambda>_.
           bnd (col_search collection [query_vector] ''embedding'' search_params top_k filters)
             (\<lambda>results.
           search_results results []))))"

definition search ::
  "string \<Rightarrow> real list \<Rightarrow> int \<Rightarrow> string option \<Rightarrow> SearchHit list prog" where
  "search collection_name query_vector top_k filters =
     try_except (search_body collection_name query_vector top_k filters)
       (\<lambda>e. bnd (logmsg Error ''search: similarity search failed'') (\<lambda>_. ret []))"

subsection \<open>\<open>get_latest_memory\<close>, \<open>delete\<close>, \<open>drop_collection\<close>\<close>

definition get_latest_memory_body :: "string \<Rightarrow> int \<Rightarrow> row list prog" where
  "get_latest_memory_body collection_name limit =
     bnd (get_collection collection_name) (\<lambda>collection.
     bnd (col_query collection [] [''*''] (Some (''create_time'', ''desc'')) (Some limit))
       (\<lambda>results.
     ret (if results \<noteq> [] then results else [])))"

definition get_latest_memory :: "string \<Rightarrow> int \<Rightarrow> row list prog" where
  "get_latest_memory collection_name limit =
     try_except (get_latest_memory_body collection_name limit)
       (\<lambda>e. case e of
               ValueError _ \<Rightarrow>
                 bnd (logmsg Error ''get_latest_memory: collection does not exist'') (\<lambda>_. ret [])
             | IndexError \<Rightarrow>
                 bnd (logmsg Warning ''get_latest_memory: no data in the collection'') (\<lambda>_. ret [])
             | _ \<Rightarrow>
                 bnd (logmsg Error ''get_latest_memory: getting the latest memories failed'')
                   (\<lambda>_. ret []))"

definition delete_body :: "string \<Rightarrow> string \<Rightarrow> unit prog" where
  "delete_body collection_name expr =
     bnd (cache_get collection_name) (\<lambda>cached.
       case cached of
         None \<Rightarrow> raise (ValueError collection_name)
       | Some collection \<Rightarrow>
           bnd (col_delete collection expr) (\<lambda>_.
           logmsg Info ''delete: deleted the matching records''))"

definition delete :: "string \<Rightarrow> string \<Rightarrow> unit prog" where
  "delete collection_name expr =
     try_except (delete_body collection_name expr) (\<lambda>e. logmsg Error ''delete: delete failed'')"

definition drop_collection_body :: "string \<Rightarrow> unit prog" where
  "drop_collection_body collection_name =
     bnd (utility_has_collection collection_name) (\<lambda>ex.
       if \<not> ex then logmsg Warning ''drop_collection: the collection does not exist''
       else
         bnd (cache_get collection_name) (\<lambda>cached.
         bnd (case cached of Some col \<Rightarrow> col_release col | None \<Rightarrow> ret ()) (\<lambda>_.
         bnd (utility_drop_collection collection_name) (\<lambda>_.
         bnd (cache_get collection_name) (\<lambda>cached'.
         bnd (case cached' of Some _ \<Rightarrow> cache_del collection_name | None \<Rightarrow> ret ()) (\<lambda>_.
         logmsg Info ''drop_collection: collection and its data dropped''))))))"

definition drop_collection :: "string \<Rightarrow> unit prog" where
  "drop_collection collection_name =
     try_except (drop_collection_body collection_name)
       (\<lambda>e. logmsg Error ''drop_collection: error while dropping the collection'')"

subsection \<open>\<open>check_collection_schema_consistency\<close>\<close>

text \<open>The dictionary \<open>{field.name: field for field in collection.schema.fields}\<close>: of two
  fields of one name the later one stays, so a key is looked up from the end.\<close>

definition existing_fields_of :: "FieldSchema list \<Rightarrow> string \<Rightarrow> FieldSchema option" where
  "existing_fields_of fs = map_of (rev (map (\<lambda>f. (fs_name f, f)) fs))"

text \<open>The inner function \<open>check_field\<close>.\<close>

definition check_field :: "field_definition \<Rightarrow> FieldSchema list \<Rightarrow> bool prog" where
  "check_field fd fs =
     bnd (lift (getitem (fd_name fd) ''name'')) (\<lambda>field_name.
     bnd (lift (getitem (fd_dtype fd) ''dtype'')) (\<lambda>field_dtype.
       case existing_fields_of fs field_name of
         None \<Rightarrow> bnd (logmsg Warning ''check: the collection lacks a field'') (\<lambda>_. ret False)
       | Some existing_field \<Rightarrow>
           if fs_dtype existing_field \<noteq> field_dtype then
             bnd (logmsg Warning ''check: data type of a field differs'') (\<lambda>_. ret False)
           else if field_dtype = VARCHAR then
             (if fd_max_length fd \<noteq> fs_max_length existing_field then
                bnd (logmsg Warning ''check: max_length of a field differs'') (\<lambda>_. ret False)
              else ret True)
           else if field_dtype = FLOAT_VECTOR then
             (if fd_dim fd \<noteq> fs_dim existing_field then
                bnd (logmsg Warning ''check: dim of a field differs'') (\<lambda>_. ret False)
              else ret True)
           else ret True))"

text \<open>The loop over the expected fields: the first field that fails ends it.\<close>

fun check_fields :: "field_definition list \<Rightarrow> FieldSchema list \<Rightarrow> bool prog" where
  "check_fields [] fs = ret True"
| "check_fields (fd # fds) fs =
     bnd (check_field fd fs) (\<lambda>ok. if \<not> ok then ret False else check_fields fds fs)"

text \<open>The set comprehension \<open>{field["name"] for field in expected_schema["fields"]}\<close>.\<close>

fun field_names :: "field_definition list \<Rightarrow> error + string list" where
  "field_names [] = Inr []"
| "field_names (fd # fds) =
     (case getitem (fd_name fd) ''name'' of
        Inl e \<Rightarrow> Inl e
      | Inr n \<Rightarrow> (case field_names fds of Inl e \<Rightarrow> Inl e | Inr ns \<Rightarrow> Inr (n # ns)))"

definition check_body :: "string \<Rightarrow> schema \<Rightarrow> bool prog" where
  "check_body collection_name expected_schema =
     bnd ensure_connection (\<lambda>_.
     bnd (utility_has_collection collection_name) (\<lambda>ex.
       if \<not> ex then
         bnd (logmsg Warning ''check: the collection does not exist'') (\<lambda>_. ret False)
       else
         bnd (Collection_existing collection_name) (\<lambda>collection.
         bnd (lift (getitem (sch_fields expected_schema) ''fields'')) (\<lambda>fds.
           if col_schema collection = [] \<and> fds \<noteq> [] then
             bnd (logmsg Warning ''check: the collection has no field'') (\<lambda>_. ret False)
           else if fds = [] then
             bnd (logmsg Warning ''check: the expected schema has no field'') (\<lambda>_. ret False)
           else
             bnd (check_fields fds (col_schema collection)) (\<lambda>ok.
               if \<not> ok then ret False
               else
                 bnd (lift (field_names fds)) (\<lambda>expected_field_names.
                   if set (map fs_name (col_schema collection)) - set expected_field_names \<noteq> {}
                   then bnd (logmsg Warning ''check: the collection has extra fields'')
                          (\<lambda>_. ret False)
                   else bnd (logmsg Info ''check: the collection matches the expected schema'')
                          (\<lambda>_. ret True)))))))"

definition check_collection_schema_consistency :: "string \<Rightarrow> schema \<Rightarrow> bool prog" where
  "check_collection_schema_consistency collection_name expected_schema =
     try_except (check_body collection_name expected_schema)
       (\<lambda>e. case e of
               KeyError _ \<Rightarrow>
                 bnd (logmsg Error ''check: the schema definition lacks a key'') (\<lambda>_. ret False)
             | _ \<Rightarrow>
                 bnd (logmsg Error ''check: unknown error while checking the schema'')
                   (\<lambda>_. ret False))"

subsection \<open>The comparison of schemas in the words of the specification\<close>

text \<open>
  An expected field and an actual field match when the names are the same, the data types
  are equal, \<open>max_length\<close> is equal if the field is a \<open>VARCHAR\<close> and \<open>dim\<close> is equal if
  it is a \<open>FLOAT_VECTOR\<close>. The actual field set is exactly the expected one when every
  expected field is matched by an actual field and no actual field has a name outside the
  expected names.
\<close>

definition field_matches :: "field_definition \<Rightarrow> FieldSchema \<Rightarrow> bool" where
  "field_matches fd f =
     (fd_name fd = Some (fs_name f) \<and> fd_dtype fd = Some (fs_dtype f) \<and>
      (fs_dtype f = VARCHAR \<longrightarrow> fd_max_length fd = fs_max_length f) \<and>
      (fs_dtype f = FLOAT_VECTOR \<longrightarrow> fd_dim fd = fs_dim f))"

definition same_field_set :: "field_definition list \<Rightarrow> FieldSchema list \<Rightarrow> bool" where
  "same_field_set fds fs =
     ((\<forall>fd \<in> set fds. \<exists>f \<in> set fs. field_matches fd f) \<and>
      (\<forall>f \<in> set fs. \<exists>fd \<in> set fds. fd_name fd = Some (fs_name f)))"

subsection \<open>Notions used in the proofs about \<open>create_collection\<close>\<close>

text \<open>The parameters the second loop of \<open>create_collection\<close> passes to \<open>create_index\<close>
  for a field, the list of the indexes it creates for a list of fields, and the states in
  which the loop runs: the engine answers, the handle is cached under its own name and
  the collection exists.\<close>

definition index_params_for :: "field_definition \<Rightarrow> params" where
  "index_params_for fd =
     (case fd_index_params fd of
        None \<Rightarrow> default_index_params
      | Some p \<Rightarrow> if p = [] then default_index_params else p)"

definition vector_indexes :: "field_definition list \<Rightarrow> (string \<times> params) list" where
  "vector_indexes fds =
     map (\<lambda>fd. (get_default (fd_name fd) [], index_params_for fd))
       (filter (\<lambda>fd. fd_dtype fd = Some FLOAT_VECTOR) fds)"

definition index_ready :: "string \<Rightarrow> collection_data \<Rightarrow> world \<Rightarrow> bool" where
  "index_ready n cd w =
     (r_connected (remote w) \<and> r_faults (remote w) = {} \<and>
      (\<exists>fs. map_of (collections w) n = Some (Collection n fs)) \<and>
      map_of (r_store (remote w)) n = Some cd)"

subsection \<open>Invariants of the client's state\<close>

text \<open>
  \<open>preserves P m\<close>: the operation \<open>m\<close> keeps the property \<open>P\<close> of the state, whether it
  returns or raises. \<open>cache_ok\<close>: every handle in \<open>self.collections\<close> is stored under the
  name of its collection. \<open>schema_of\<close>: the fields of the collection of a name on the
  engine. \<open>embedding_only\<close>: every vector search in the trace names the field
  \<open>embedding\<close>.
\<close>

definition preserves :: "(world \<Rightarrow> bool) \<Rightarrow> 'a prog \<Rightarrow> bool" where
  "preserves P m = (\<forall>w. P w \<longrightarrow> P (snd (m w)))"

definition cache_ok :: "world \<Rightarrow> bool" where
  "cache_ok w = (\<forall>k c. map_of (collections w) k = Some c \<longrightarrow> col_name c = k)"

definition schema_of :: "world \<Rightarrow> string \<Rightarrow> FieldSchema list option" where
  "schema_of w n = map_option c_fields (map_of (r_store (remote w)) n)"

definition searches_embedding :: "call \<Rightarrow> bool" where
  "searches_embedding c = (case c of Search _ _ a _ _ _ \<Rightarrow> a = ''embedding'' | _ \<Rightarrow> True)"

definition embedding_only :: "world \<Rightarrow> bool" where
  "embedding_only w = list_all searches_embedding (r_calls (remote w))"

text \<open>The invariants as one family, for the lemmas that hold of each: the three above,
  a connection that is up, and an engine that fails on no call.\<close>

datatype invariant =
  CacheOk | SchemaIs string "FieldSchema list option" | EmbeddingOnly | Connected | NoFaults

fun holds :: "invariant \<Rightarrow> world \<Rightarrow> bool" where
  "holds CacheOk w = cache_ok w"
| "holds (SchemaIs n F) w = (schema_of w n = F)"
| "holds EmbeddingOnly w = embedding_only w"
| "holds Connected w = r_connected (remote w)"
| "holds NoFaults w = (r_faults (remote w) = {})"


subsection \<open>Example states\<close>

text \<open>An engine that is connected, holds no collection, never fails, accepts a schema
  with exactly one primary field, answers a query with all flushed rows and a search with
  one hit per flushed row.\<close>

definition engine0 :: remote where
  "engine0 =
     \<lparr>r_connected = True, r_store = [], r_calls = [], r_faults = {},
      r_accepts = (\<lambda>fs. length (filter fs_is_primary fs) = 1),
      r_query_answer = (\<lambda>c cd. c_rows cd),
      r_search_answer = (\<lambda>c cd.
         [map (\<lambda>r. \<lparr>hit_id = map_of r ''id'', hit_distance = Some 0,
                      hit_entity = Some (WithToDict (Inr r))\<rparr>) (c_rows cd)]),
      r_delete_answer = (\<lambda>expr rows. [])\<rparr>"

definition world0 :: world where
  "world0 =
     \<lparr>collections = [], host = ''localhost'', port = ''19530'', logger = [],
      now = 1700000000, remote = engine0\<rparr>"

text \<open>The schema of the scenario of the specification: \<open>id\<close>, \<open>embedding\<close>, \<open>text\<close>.\<close>

definition fd0 :: field_definition where
  "fd0 = \<lparr>fd_name = None, fd_dtype = None, fd_is_primary = None, fd_auto_id = None,
          fd_is_nullable = None, fd_max_length = None, fd_dim = None,
          fd_index_params = None\<rparr>"

definition fd_id :: field_definition where
  "fd_id = fd0\<lparr>fd_name := Some ''id'', fd_dtype := Some INT64, fd_is_primary := Some True\<rparr>"

definition fd_embedding :: field_definition where
  "fd_embedding = fd0\<lparr>fd_name := Some ''embedding'', fd_dtype := Some FLOAT_VECTOR, fd_dim := Some 4\<rparr>"

definition fd_text :: field_definition where
  "fd_text = fd0\<lparr>fd_name := Some ''text'', fd_dtype := Some VARCHAR, fd_max_length := Some 256\<rparr>"

definition fd_create_time :: field_definition where
  "fd_create_time = fd0\<lparr>fd_name := Some ''create_time'', fd_dtype := Some INT64\<rparr>"

definition schema0 :: schema where
  "schema0 =
     \<lparr>sch_fields = Some [fd_id, fd_embedding, fd_text, fd_create_time],
      sch_description = None\<rparr>"

text \<open>The same schema with a \<open>VARCHAR\<close> field that has no \<open>max_length\<close>.\<close>

definition schema_bad :: schema where
  "schema_bad =
     \<lparr>sch_fields = Some [fd_id, fd_embedding, fd_text\<lparr>fd_max_length := None\<rparr>],
      sch_description = None\<rparr>"

text \<open>The fields of the collection that \<open>schema0\<close> describes.\<close>

definition fs0 :: FieldSchema where
  "fs0 = \<lparr>fs_name = [], fs_dtype = INT64, fs_max_length = None, fs_dim = None,
          fs_is_primary = False, fs_auto_id = False, fs_is_nullable = False\<rparr>"

definition fields0 :: "FieldSchema list" where
  "fields0 =
     [fs0\<lparr>fs_name := ''id'', fs_is_primary := True\<rparr>,
      fs0\<lparr>fs_name := ''embedding'', fs_dtype := FLOAT_VECTOR, fs_dim := Some 4\<rparr>,
      fs0\<lparr>fs_name := ''text'', fs_dtype := VARCHAR, fs_max_length := Some 256\<rparr>,
      fs0\<lparr>fs_name := ''create_time''\<rparr>]"

text \<open>A client that is connected and holds a handle on the collection \<open>memories\<close>,
  which exists, has an index and is not loaded.\<close>

definition memories0 :: collection_data where
  "memories0 =
     \<lparr>c_fields = fields0, c_description = [],
      c_indexes = [(''embedding'', [(''index_type'', PStr ''IVF_FLAT''),
                    (''metric_type'', PStr ''L2''), (''params'', PDict [(''nlist'', PInt 256)])])],
      c_loaded = False, c_rows = [], c_pending = []\<rparr>"

definition world1 :: world where
  "world1 =
     world0\<lparr>collections := [(''memories'', Collection ''memories'' fields0)],
            remote := engine0\<lparr>r_store := [(''memories'', memories0)]\<rparr>\<rparr>"

text \<open>The same client after \<open>close()\<close>: the alias has no connection, the dictionary of
  handles is as it was.\<close>

definition world_closed :: world where
  "world_closed = world1\<lparr>remote := (remote world1)\<lparr>r_connected := False\<rparr>\<rparr>"

text \<open>A client whose engine cannot be reached: no connection, and every call fails.\<close>

definition world_unreachable :: world where
  "world_unreachable = world0\<lparr>remote := engine0\<lparr>r_connected := False, r_faults := UNIV\<rparr>\<rparr>"

text \<open>An expected schema with no field.\<close>

definition schema_empty :: schema where
  "schema_empty = \<lparr>sch_fields = Some [], sch_description = None\<rparr>"

text \<open>\<open>schema0\<close> with another dimension of the vector field.\<close>

definition schema_dim8 :: schema where
  "schema_dim8 =
     \<lparr>sch_fields = Some [fd_id, fd_embedding\<lparr>fd_dim := Some 8\<rparr>, fd_text, fd_create_time],
      sch_description = None\<rparr>"

text \<open>\<open>schema0\<close> with index parameters on the vector field.\<close>

definition hnsw_params :: params where
  "hnsw_params =
     [(''index_type'', PStr ''HNSW''), (''metric_type'', PStr ''IP''),
      (''params'', PDict [(''M'', PInt 16)])]"

definition schema_hnsw :: schema where
  "schema_hnsw =
     \<lparr>sch_fields =
        Some [fd_id, fd_embedding\<lparr>fd_index_params := Some hnsw_params\<rparr>, fd_text,
              fd_create_time],
      sch_description = None\<rparr>"

text \<open>A client with a handle on the collection \<open>docs\<close>, whose vector field is named
  \<open>vec\<close>, with one row stored.\<close>

definition fields_vec :: "FieldSchema list" where
  "fields_vec =
     [fs0\<lparr>fs_name := ''id'', fs_is_primary := True\<rparr>,
      fs0\<lparr>fs_name := ''vec'', fs_dtype := FLOAT_VECTOR, fs_dim := Some 4\<rparr>]"

definition world_vec :: world where
  "world_vec =
     world0\<lparr>collections := [(''docs'', Collection ''docs'' fields_vec)],
            remote := engine0\<lparr>r_store :=
              [(''docs'', (new_collection fields_vec [])
                  \<lparr>c_indexes := [(''vec'', default_index_params)],
                   c_rows := [[(''id'', VInt 1), (''vec'', VVec [0, 0, 0, 1])]]\<rparr>)]\<rparr>\<rparr>"


text \<open>Two records without a \<open>create_time\<close>.\<close>

definition row1 :: row where
  "row1 = [(''id'', VInt 1), (''embedding'', VVec [0, 0, 0, 1]), (''text'', VStr ''hello'')]"

definition row2 :: row where
  "row2 = [(''id'', VInt 2), (''embedding'', VVec [0, 0, 1, 0]), (''text'', VStr ''world'')]"

section \<open>Properties\<close>

subsection \<open>Evaluation and the exception handlers\<close>

lemmas monad_defs =
  ret_def raise_def bnd_def try_except_def lift_def logmsg_def getitem_def get_default_def
  time_time_def cache_get_def cache_getitem_def cache_put_def cache_del_def cache_clear_def

lemmas pymilvus_defs =
  remote_call_def on_collection_def connections_has_connection_def connections_connect_def
  connections_disconnect_def utility_list_collections_def utility_has_collection_def
  utility_load_state_def utility_drop_collection_def Collection_existing_def
  Collection_create_def new_collection_def col_indexes_def col_load_def col_release_def
  col_create_index_def col_insert_def col_flush_def col_query_def col_search_def
  col_delete_def is_vector_field_def connection_alias_def Let_def

lemmas example_defs =
  engine0_def world0_def fd0_def fd_id_def fd_embedding_def fd_text_def fd_create_time_def
  schema0_def schema_bad_def fs0_def fields0_def memories0_def world1_def world_closed_def
  world_unreachable_def row1_def row2_def schema_empty_def schema_dim8_def
  hnsw_params_def schema_hnsw_def

lemma try_except_total:
  assumes "\<And>e w'. \<exists>x. fst (h e w') = Inr x"
  shows "\<exists>x. fst (try_except m h w) = Inr x"
proof (cases "m w")
  case (Pair res w')
  show ?thesis
  proof (cases res)
    case (Inl e)
    with Pair assms[of e w'] show ?thesis by (simp add: try_except_def)
  next
    case (Inr x)
    with Pair show ?thesis by (simp add: try_except_def)
  qed
qed

lemma try_except_handled: "fst (m w) = Inl e \<Longrightarrow> try_except m h w = h e (snd (m w))"
  by (cases "m w") (simp add: try_except_def)

lemma try_except_passed: "fst (m w) = Inr x \<Longrightarrow> try_except m h w = m w"
  by (cases "m w") (simp add: try_except_def)

lemma logmsg_ret_fst: "fst (bnd (logmsg l msg) (\<lambda>_. ret x) w) = Inr x"
  by (simp add: bnd_def logmsg_def ret_def)

lemma logmsg_fst: "fst (logmsg l msg w) = Inr u"
  by (simp add: logmsg_def)

lemma ensure_connection_connected:
  "r_connected (remote w) \<Longrightarrow> ensure_connection w = (Inr (), w)"
  by (simp add: ensure_connection_def bnd_def connections_has_connection_def ret_def)

lemma bnd_Inr: "fst (m w) = Inr x \<Longrightarrow> bnd m f w = f x (snd (m w))"
  by (cases "m w") (simp add: bnd_def)

lemma bnd_Inl: "fst (m w) = Inl e \<Longrightarrow> bnd m f w = (Inl e, snd (m w))"
  by (cases "m w") (simp add: bnd_def)

lemma unit_total: "(\<exists>x::unit. v = Inr x) \<Longrightarrow> v = Inr ()"
  by simp

lemma bnd_total:
  assumes "\<exists>x. fst (m w) = Inr x" and "\<And>x w'. \<exists>y. fst (f x w') = Inr y"
  shows "\<exists>y. fst (bnd m f w) = Inr y"
proof -
  from assms(1) obtain x where "fst (m w) = Inr x" by blast
  then have "bnd m f w = f x (snd (m w))" by (rule bnd_Inr)
  with assms(2)[of x "snd (m w)"] show ?thesis by simp
qed

subsection \<open>Operations that absorb every failure\<close>

lemma query_total: "\<exists>rs. fst (query n f outs w) = Inr rs"
  unfolding query_def by (rule try_except_total) (simp add: logmsg_ret_fst)

lemma search_total: "\<exists>hs. fst (search n qv k fl w) = Inr hs"
  unfolding search_def by (rule try_except_total) (simp add: logmsg_ret_fst)

lemma query_absorbs:
  "fst (query_body n f outs w) = Inl e \<Longrightarrow> fst (query n f outs w) = Inr []"
  by (simp add: query_def try_except_handled logmsg_ret_fst)

lemma search_absorbs:
  "fst (search_body n qv k fl w) = Inl e \<Longrightarrow> fst (search n qv k fl w) = Inr []"
  by (simp add: search_def try_except_handled logmsg_ret_fst)

lemma query_body_miss:
  "r_connected (remote w) \<Longrightarrow> map_of (collections w) n = None \<Longrightarrow>
   query_body n f outs w = (Inl (ValueError n), w)"
  by (simp add: query_body_def bnd_def ensure_connection_connected cache_get_def raise_def)

lemma search_body_miss:
  "r_connected (remote w) \<Longrightarrow> map_of (collections w) n = None \<Longrightarrow>
   search_body n qv k fl w = (Inl (ValueError n), w)"
  by (simp add: search_body_def bnd_def ensure_connection_connected cache_get_def raise_def)

text \<open>
  Claim C5. \<open>query\<close> and \<open>search\<close> never raise, whatever the arguments, the cache and the
  engine (connected or not, failing on any call or not): each returns a list. Whenever
  the body of the \<open>try\<close> raises, the result is the empty list; in particular when the
  connection is up and the dictionary \<open>self.collections\<close> has no entry for the name, the
  body raises \<open>ValueError\<close> and the result is the empty list.
\<close>

theorem query_search_never_raise:
  "(\<exists>rs. fst (query n f outs w) = Inr rs) \<and>
   (\<exists>hs. fst (search n qv k fl w) = Inr hs) \<and>
   (\<forall>e. fst (query_body n f outs w) = Inl e \<longrightarrow> fst (query n f outs w) = Inr []) \<and>
   (\<forall>e. fst (search_body n qv k fl w) = Inl e \<longrightarrow> fst (search n qv k fl w) = Inr []) \<and>
   (r_connected (remote w) \<and> map_of (collections w) n = None \<longrightarrow>
      fst (query_body n f outs w) = Inl (ValueError n) \<and> fst (query n f outs w) = Inr [] \<and>
      fst (search_body n qv k fl w) = Inl (ValueError n) \<and> fst (search n qv k fl w) = Inr [])"
proof -
  have "fst (query n f outs w) = Inr [] \<and> fst (search n qv k fl w) = Inr []"
    if "r_connected (remote w)" "map_of (collections w) n = None"
    using that query_absorbs[of n f outs w "ValueError n"]
      search_absorbs[of n qv k fl w "ValueError n"]
    by (simp add: query_body_miss search_body_miss)
  then show ?thesis
    using query_total[of n f outs w] search_total[of n qv k fl w]
    by (auto simp: query_body_miss search_body_miss intro: query_absorbs search_absorbs)
qed

theorem query_search_never_raise_witness:
  "r_connected (remote world0) \<and> map_of (collections world0) ''memories'' = None \<and>
   fst (query_body ''memories'' ''id > 0'' [''*''] world0) = Inl (ValueError ''memories'') \<and>
   fst (query ''memories'' ''id > 0'' [''*''] world0) = Inr [] \<and>
   fst (search_body ''memories'' [0, 0, 0, 1] 1 None world0) = Inl (ValueError ''memories'') \<and>
   fst (search ''memories'' [0, 0, 0, 1] 1 None world0) = Inr []"
  using query_search_never_raise
          [of "''memories''" "''id > 0''" "[''*'']" world0 "[0, 0, 0, 1]" 1 None]
  by (simp add: world0_def engine0_def)

subsection \<open>\<open>connect\<close> raises, the other operations do not\<close>

lemma connect_one_total: "fst (connect_one n w) = Inr ()"
  unfolding connect_one_def by (rule unit_total, rule try_except_total) (simp add: logmsg_fst)

lemma connect_loop_total: "fst (connect_loop ns w) = Inr ()"
proof (induction ns arbitrary: w)
  case Nil
  show ?case by (simp add: ret_def)
next
  case (Cons n ns)
  show ?case
    using Cons.IH by (simp add: bnd_Inr[of "connect_one n" w "()"] connect_one_total)
qed

lemma list_collections_total: "\<exists>ns. fst (list_collections w) = Inr ns"
  unfolding list_collections_def by (rule try_except_total) (simp add: logmsg_ret_fst)

lemma connect_body_after_connect:
  "\<exists>v. fst (bnd (logmsg Info msg) (\<lambda>_. bnd list_collections (\<lambda>existing_collections.
        bnd cache_clear (\<lambda>_. connect_loop existing_collections))) w) = Inr v"
  by (intro bnd_total list_collections_total)
     (simp_all add: logmsg_def cache_clear_def connect_loop_total)

text \<open>The body of \<open>connect\<close> raises exactly when \<open>connections.connect\<close> does: the listing
  and the loop over the collections absorb their own failures.\<close>

lemma connect_body_fails_iff:
  "fst (connect_body w) = Inl e \<longleftrightarrow>
     length (r_calls (remote w)) \<in> r_faults (remote w) \<and>
     e = MilvusException (Connect connection_alias (host w) (port w))"
proof (cases "length (r_calls (remote w)) \<in> r_faults (remote w)")
  case True
  then have "fst (connections_connect w) =
      Inl (MilvusException (Connect connection_alias (host w) (port w)))"
    by (simp add: connections_connect_def Let_def)
  then show ?thesis using True by (auto simp: connect_body_def bnd_Inl)
next
  case False
  then have c: "fst (connections_connect w) = Inr ()"
    by (simp add: connections_connect_def Let_def)
  show ?thesis
    using False
      connect_body_after_connect[of "''connect: connected to Milvus''" "snd (connections_connect w)"]
    by (auto simp: connect_body_def bnd_Inr[of connections_connect w "()"] c)
qed

lemma connect_reraises:
  "fst (connect_body w) = Inl e \<Longrightarrow>
   fst (connect w) = Inl e \<and>
   logger (snd (connect w)) =
     logger (snd (connect_body w)) @ [(Error, ''connect: connecting to Milvus failed'')]"
  by (simp add: connect_def try_except_handled bnd_def logmsg_def raise_def)

lemma connect_fst: "fst (connect w) = fst (connect_body w)"
proof (cases "connect_body w")
  case (Pair res w')
  then show ?thesis
    by (cases res) (simp_all add: connect_def try_except_def bnd_def logmsg_def raise_def)
qed

lemma connections_connect_fails_iff:
  "fst (connections_connect w) = Inl e \<longleftrightarrow>
     length (r_calls (remote w)) \<in> r_faults (remote w) \<and>
     e = MilvusException (Connect connection_alias (host w) (port w))"
  by (auto simp add: connections_connect_def Let_def)

lemma create_collection_total: "fst (create_collection n s w) = Inr ()"
  unfolding create_collection_def
  by (rule unit_total, rule try_except_total) (simp add: logmsg_fst)

lemma create_collection_absorbs:
  "fst (create_collection_body n s w) = Inl e \<Longrightarrow>
   create_collection n s w =
     (Inr (), (snd (create_collection_body n s w))
        \<lparr>logger := logger (snd (create_collection_body n s w)) @
           [(Error, ''create_collection: creating the collection failed'')]\<rparr>)"
  by (simp add: create_collection_def try_except_handled logmsg_def)

lemma insert_rows_total: "fst (insert_rows n d w) = Inr ()"
  unfolding insert_rows_def by (rule unit_total, rule try_except_total) (simp add: logmsg_fst)

lemma delete_total: "fst (delete n ex w) = Inr ()"
  unfolding delete_def by (rule unit_total, rule try_except_total) (simp add: logmsg_fst)

lemma drop_collection_total: "fst (drop_collection n w) = Inr ()"
  unfolding drop_collection_def
  by (rule unit_total, rule try_except_total) (simp add: logmsg_fst)

lemma close_total: "fst (close w) = Inr ()"
  unfolding close_def by (rule unit_total, rule try_except_total) (simp add: logmsg_fst)

lemma get_latest_memory_total: "\<exists>rs. fst (get_latest_memory n k w) = Inr rs"
  unfolding get_latest_memory_def
  by (rule try_except_total) (auto simp: logmsg_ret_fst split: error.splits)

lemma check_total: "\<exists>b. fst (check_collection_schema_consistency n s w) = Inr b"
  unfolding check_collection_schema_consistency_def
  by (rule try_except_total) (auto simp: logmsg_ret_fst split: error.splits)

text \<open>
  Claim C9, as stated, fails for collection creation: \<open>create_collection\<close> on a schema
  whose \<open>VARCHAR\<close> field has no \<open>max_length\<close> raises \<open>KeyError\<close> inside its \<open>try\<close>, and
  on an engine that cannot be reached its first call raises; both times the handler logs
  the error and the call returns normally.
\<close>

theorem create_collection_failure_not_raised:
  "fst (create_collection_body ''memories'' schema_bad world0) = Inl (KeyError ''max_length'') \<and>
   fst (create_collection ''memories'' schema_bad world0) = Inr () \<and>
   fst (create_collection_body ''memories'' schema0 world_unreachable) =
     Inl ConnectionNotExistException \<and>
   fst (create_collection ''memories'' schema0 world_unreachable) = Inr ()"
  by (simp add: create_collection_def create_collection_body_def monad_defs pymilvus_defs
      example_defs build_field_def)

text \<open>
  Claim C9, amended. A failure of connection establishment is logged and raised again to
  the caller: \<open>connect\<close> raises exactly when \<open>connections.connect\<close> fails, and then the
  error of \<open>connections.connect\<close>, after an error line; when \<open>connections.connect\<close>
  succeeds, \<open>connect\<close> returns. A failure during collection creation
  is logged and absorbed: \<open>create_collection\<close> returns normally, as \<open>insert\<close>, \<open>query\<close>,
  \<open>search\<close>, \<open>get_latest_memory\<close>, \<open>delete\<close>, \<open>drop_collection\<close>,
  \<open>check_collection_schema_consistency\<close>, \<open>list_collections\<close> and \<open>close\<close> do.
\<close>

theorem connect_raises_others_absorb:
  "(\<forall>e. (fst (connect w) = Inl e) = (fst (connections_connect w) = Inl e)) \<and>
   (fst (connections_connect w) = Inr () \<longrightarrow> fst (connect w) = Inr ()) \<and>
   (length (r_calls (remote w)) \<in> r_faults (remote w) \<longrightarrow>
      fst (connect w) = Inl (MilvusException (Connect connection_alias (host w) (port w))) \<and>
      logger (snd (connect w)) =
        logger (snd (connect_body w)) @ [(Error, ''connect: connecting to Milvus failed'')]) \<and>
   (\<forall>e. fst (create_collection_body n s w) = Inl e \<longrightarrow>
      fst (create_collection n s w) = Inr () \<and>
      logger (snd (create_collection n s w)) =
        logger (snd (create_collection_body n s w)) @
          [(Error, ''create_collection: creating the collection failed'')]) \<and>
   fst (create_collection n s w) = Inr () \<and>
   fst (insert_rows n d w) = Inr () \<and>
   (\<exists>rs. fst (query n f outs w) = Inr rs) \<and>
   (\<exists>hs. fst (search n qv k fl w) = Inr hs) \<and>
   (\<exists>rs. fst (get_latest_memory n k w) = Inr rs) \<and>
   fst (delete n f w) = Inr () \<and>
   fst (drop_collection n w) = Inr () \<and>
   (\<exists>b. fst (check_collection_schema_consistency n s w) = Inr b) \<and>
   (\<exists>ns. fst (list_collections w) = Inr ns) \<and>
   fst (close w) = Inr ()"
proof -
  have "fst (connect w) = Inl (MilvusException (Connect connection_alias (host w) (port w))) \<and>
      logger (snd (connect w)) =
        logger (snd (connect_body w)) @ [(Error, ''connect: connecting to Milvus failed'')]"
    if "length (r_calls (remote w)) \<in> r_faults (remote w)"
    using that connect_body_fails_iff[of w] by (intro connect_reraises) simp
  moreover have "fst (create_collection n s w) = Inr () \<and>
      logger (snd (create_collection n s w)) =
        logger (snd (create_collection_body n s w)) @
          [(Error, ''create_collection: creating the collection failed'')]"
    if "fst (create_collection_body n s w) = Inl e" for e
    using create_collection_absorbs[OF that] by simp
  moreover have "(fst (connect w) = Inl e) = (fst (connections_connect w) = Inl e)" for e
    by (simp add: connect_fst connect_body_fails_iff connections_connect_fails_iff)
  moreover have "fst (connect w) = Inr ()" if "fst (connections_connect w) = Inr ()"
  proof -
    have "\<not> (\<exists>e. fst (connect_body w) = Inl e)"
      using that by (simp add: connect_body_fails_iff connections_connect_fails_iff[symmetric])
    then show ?thesis by (cases "fst (connect_body w)") (auto simp: connect_fst)
  qed
  ultimately show ?thesis
    using query_total[of n f outs w] search_total[of n qv k fl w]
      get_latest_memory_total[of n k w] check_total[of n s w] list_collections_total[of w]
    by (simp add: create_collection_total insert_rows_total delete_total
        drop_collection_total close_total)
qed

theorem connect_raises_others_absorb_witness:
  "length (r_calls (remote world_unreachable)) \<in> r_faults (remote world_unreachable) \<and>
   fst (connections_connect world_unreachable) =
     Inl (MilvusException (Connect ''default'' ''localhost'' ''19530'')) \<and>
   fst (connect world_unreachable) =
     Inl (MilvusException (Connect ''default'' ''localhost'' ''19530'')) \<and>
   fst (connections_connect world_closed) = Inr () \<and>
   fst (connect world_closed) = Inr () \<and>
   fst (create_collection_body ''memories'' schema0 world_unreachable) =
     Inl ConnectionNotExistException \<and>
   fst (create_collection ''memories'' schema0 world_unreachable) = Inr () \<and>
   fst (insert_rows ''memories'' [] world_unreachable) = Inr () \<and>
   fst (delete ''memories'' ''id > 0'' world_unreachable) = Inr () \<and>
   fst (drop_collection ''memories'' world_unreachable) = Inr ()"
proof -
  have h: "length (r_calls (remote world_unreachable)) \<in> r_faults (remote world_unreachable)"
    by (simp add: example_defs)
  have b: "fst (create_collection_body ''memories'' schema0 world_unreachable) =
     Inl ConnectionNotExistException"
    by (simp add: create_collection_body_def monad_defs pymilvus_defs example_defs)
  have c: "fst (connections_connect world_unreachable) =
     Inl (MilvusException (Connect ''default'' ''localhost'' ''19530''))"
    "fst (connections_connect world_closed) = Inr ()"
    by (simp_all add: connections_connect_def connection_alias_def Let_def example_defs)
  have a: "host world_unreachable = ''localhost''" "port world_unreachable = ''19530''"
    by (simp_all add: example_defs)
  show ?thesis
    using h b c a
      connect_raises_others_absorb
        [of world_unreachable "''memories''" schema0 "[]" "''id > 0''" "[]" "[]" 1 None]
      connect_raises_others_absorb
        [of world_closed "''memories''" schema0 "[]" "''id > 0''" "[]" "[]" 1 None]
    by (simp add: connection_alias_def)
qed

subsection \<open>\<open>create_collection\<close> on a name that exists\<close>

text \<open>
  Claim C6. When the engine already has a collection of the name, \<open>create_collection\<close>
  with any schema does not raise, makes a single call, the existence check (so it creates
  no collection and no index), and leaves every collection of the engine, its schema
  included, and the dictionary of handles as they were. This holds for every state of the
  connection: when the existence check itself fails, the failure is absorbed.
\<close>

theorem create_collection_idempotent:
  "map_of (r_store (remote w)) n \<noteq> None \<Longrightarrow>
   fst (create_collection n s w) = Inr () \<and>
   r_store (remote (snd (create_collection n s w))) = r_store (remote w) \<and>
   r_calls (remote (snd (create_collection n s w))) = r_calls (remote w) @ [HasCollection n] \<and>
   collections (snd (create_collection n s w)) = collections w"
  by (auto simp add: create_collection_def create_collection_body_def bnd_def try_except_def
      utility_has_collection_def remote_call_def logmsg_def Let_def)

lemmas create_defs =
  create_collection_def create_collection_body_def create_index_for_def build_field_def
  default_index_params_def

lemma create_memories:
  "map_of (r_store (remote (snd (create_collection ''memories'' schema0 world0)))) ''memories'' =
   Some memories0"
  by (simp add: create_defs monad_defs pymilvus_defs example_defs)

theorem create_collection_idempotent_witness:
  "map_of (r_store (remote (snd (create_collection ''memories'' schema0 world0)))) ''memories''
     \<noteq> None \<and>
   fst (create_collection ''memories'' schema_bad
          (snd (create_collection ''memories'' schema0 world0))) = Inr () \<and>
   r_store (remote (snd (create_collection ''memories'' schema_bad
          (snd (create_collection ''memories'' schema0 world0))))) =
     r_store (remote (snd (create_collection ''memories'' schema0 world0)))"
proof -
  have h: "map_of (r_store (remote (snd (create_collection ''memories'' schema0 world0))))
      ''memories'' \<noteq> None"
    by (simp add: create_memories)
  show ?thesis
    using h create_collection_idempotent[OF h, of schema_bad] by simp
qed

subsection \<open>\<open>_get_collection\<close>\<close>

lemmas get_collection_defs =
  get_collection_def bnd_def cache_get_def cache_put_def ret_def raise_def
  utility_load_state_def utility_has_collection_def Collection_existing_def
  remote_call_def logmsg_def col_load_def on_collection_def Let_def update_conv'

text \<open>
  Claim C3. For a name that is neither in the dictionary of handles nor on the engine,
  \<open>_get_collection\<close> raises; the error is \<open>ValueError\<close> (the collection does not exist)
  when the engine answers the existence check, that is when the connection is up and the
  call does not fail. For a name the engine has, on an engine that answers, the handle
  that is returned is in the dictionary afterwards; whether it was there before or not,
  the load state is asked from the engine (\<open>utility.load_state\<close>), and when the engine
  reports the collection as not loaded, \<open>load\<close> is called next and the collection is
  loaded afterwards.
\<close>

theorem get_collection_resolves:
  "(map_of (collections w) n = None \<and> map_of (r_store (remote w)) n = None \<longrightarrow>
      (\<exists>e. fst (get_collection n w) = Inl e) \<and>
      (r_connected (remote w) \<and> length (r_calls (remote w)) \<notin> r_faults (remote w) \<longrightarrow>
         fst (get_collection n w) = Inl (ValueError n))) \<and>
   (r_connected (remote w) \<and> r_faults (remote w) = {} \<and>
    map_of (r_store (remote w)) n = Some cd \<and>
    (\<forall>col. map_of (collections w) n = Some col \<longrightarrow> col_name col = n) \<longrightarrow>
      (\<exists>col. fst (get_collection n w) = Inr col \<and> col_name col = n \<and>
             map_of (collections (snd (get_collection n w))) n = Some col) \<and>
      (\<exists>post. r_calls (remote (snd (get_collection n w))) =
                r_calls (remote w) @
                (if map_of (collections w) n = None then [HasCollection n, GetCollection n]
                 else []) @
                [LoadState n] @ post \<and>
              (\<not> c_loaded cd \<longrightarrow> post = [Load n])) \<and>
      (\<exists>cd'. map_of (r_store (remote (snd (get_collection n w)))) n = Some cd' \<and>
             c_loaded cd'))"
proof (intro conjI impI)
  assume "map_of (collections w) n = None \<and> map_of (r_store (remote w)) n = None"
  then show "\<exists>e. fst (get_collection n w) = Inl e"
    by (simp add: get_collection_defs)
next
  assume "map_of (collections w) n = None \<and> map_of (r_store (remote w)) n = None"
    and "r_connected (remote w) \<and> length (r_calls (remote w)) \<notin> r_faults (remote w)"
  then show "fst (get_collection n w) = Inl (ValueError n)"
    by (simp add: get_collection_defs)
next
  assume a: "r_connected (remote w) \<and> r_faults (remote w) = {} \<and>
    map_of (r_store (remote w)) n = Some cd \<and>
    (\<forall>col. map_of (collections w) n = Some col \<longrightarrow> col_name col = n)"
  then show "\<exists>col. fst (get_collection n w) = Inr col \<and> col_name col = n \<and>
             map_of (collections (snd (get_collection n w))) n = Some col"
    by (cases "map_of (collections w) n") (simp_all add: get_collection_defs)
  from a show "\<exists>post. r_calls (remote (snd (get_collection n w))) =
                r_calls (remote w) @
                (if map_of (collections w) n = None then [HasCollection n, GetCollection n]
                 else []) @
                [LoadState n] @ post \<and>
              (\<not> c_loaded cd \<longrightarrow> post = [Load n])"
    by (cases "map_of (collections w) n") (simp_all add: get_collection_defs)
  from a show "\<exists>cd'. map_of (r_store (remote (snd (get_collection n w)))) n = Some cd' \<and>
      c_loaded cd'"
    by (cases "map_of (collections w) n") (simp_all add: get_collection_defs)
qed

theorem get_collection_resolves_witness:
  "map_of (collections world0) ''memories'' = None \<and>
   map_of (r_store (remote world0)) ''memories'' = None \<and>
   fst (get_collection ''memories'' world0) = Inl (ValueError ''memories'') \<and>
   map_of (r_store (remote world1)) ''memories'' = Some memories0 \<and>
   \<not> c_loaded memories0 \<and>
   fst (get_collection ''memories'' world1) = Inr (Collection ''memories'' fields0) \<and>
   map_of (collections (snd (get_collection ''memories'' world1))) ''memories'' =
     Some (Collection ''memories'' fields0) \<and>
   r_calls (remote (snd (get_collection ''memories'' world1))) =
     [LoadState ''memories'', Load ''memories'']"
  using get_collection_resolves[of world0 "''memories''" memories0]
    get_collection_resolves[of world1 "''memories''" memories0]
  by (simp add: get_collection_defs example_defs)

subsection \<open>\<open>drop_collection\<close>\<close>

lemmas drop_collection_defs =
  drop_collection_def drop_collection_body_def bnd_def try_except_def ret_def
  utility_has_collection_def utility_drop_collection_def col_release_def on_collection_def
  cache_get_def cache_del_def remote_call_def logmsg_def Let_def update_conv' delete_conv'

text \<open>
  Claim C8. On an engine that answers: for a name the engine does not have,
  \<open>drop_collection\<close> returns normally and changes nothing but the log, which gains one
  warning, and the trace, which gains the existence check. For a name the engine has, the
  calls are the existence check, then \<open>release\<close> on the cached handle when there is one,
  then \<open>utility.drop_collection\<close>, in this order; afterwards neither the dictionary of
  handles nor the engine has the name.
\<close>

theorem drop_collection_release_then_drop:
  "(r_connected (remote w) \<and> length (r_calls (remote w)) \<notin> r_faults (remote w) \<and>
    map_of (r_store (remote w)) n = None \<longrightarrow>
      drop_collection n w =
        (Inr (),
         w\<lparr>logger := logger w @ [(Warning, ''drop_collection: the collection does not exist'')],
           remote := (remote w)\<lparr>r_calls := r_calls (remote w) @ [HasCollection n]\<rparr>\<rparr>)) \<and>
   (r_connected (remote w) \<and> r_faults (remote w) = {} \<and>
    map_of (r_store (remote w)) n \<noteq> None \<and>
    (\<forall>col. map_of (collections w) n = Some col \<longrightarrow> col_name col = n) \<longrightarrow>
      fst (drop_collection n w) = Inr () \<and>
      r_calls (remote (snd (drop_collection n w))) =
        r_calls (remote w) @ [HasCollection n] @
          (if map_of (collections w) n = None then [] else [Release n]) @ [DropCollection n] \<and>
      map_of (collections (snd (drop_collection n w))) n = None \<and>
      map_of (r_store (remote (snd (drop_collection n w)))) n = None)"
proof -
  have absent: "drop_collection n w =
        (Inr (),
         w\<lparr>logger := logger w @ [(Warning, ''drop_collection: the collection does not exist'')],
           remote := (remote w)\<lparr>r_calls := r_calls (remote w) @ [HasCollection n]\<rparr>\<rparr>)"
    if "r_connected (remote w) \<and> length (r_calls (remote w)) \<notin> r_faults (remote w) \<and>
        map_of (r_store (remote w)) n = None"
    using that by (simp add: drop_collection_defs)
  have present: "fst (drop_collection n w) = Inr () \<and>
      r_calls (remote (snd (drop_collection n w))) =
        r_calls (remote w) @ [HasCollection n] @
          (if map_of (collections w) n = None then [] else [Release n]) @ [DropCollection n] \<and>
      map_of (collections (snd (drop_collection n w))) n = None \<and>
      map_of (r_store (remote (snd (drop_collection n w)))) n = None"
    if "r_connected (remote w) \<and> r_faults (remote w) = {} \<and>
        map_of (r_store (remote w)) n \<noteq> None \<and>
        (\<forall>col. map_of (collections w) n = Some col \<longrightarrow> col_name col = n)"
    using that by (cases "map_of (collections w) n") (auto simp add: drop_collection_defs)
  from absent present show ?thesis by blast
qed

theorem drop_collection_release_then_drop_witness:
  "map_of (r_store (remote world0)) ''memories'' = None \<and>
   drop_collection ''memories'' world0 =
     (Inr (),
      world0\<lparr>logger := [(Warning, ''drop_collection: the collection does not exist'')],
             remote := engine0\<lparr>r_calls := [HasCollection ''memories'']\<rparr>\<rparr>) \<and>
   map_of (r_store (remote world1)) ''memories'' \<noteq> None \<and>
   r_calls (remote (snd (drop_collection ''memories'' world1))) =
     [HasCollection ''memories'', Release ''memories'', DropCollection ''memories''] \<and>
   collections (snd (drop_collection ''memories'' world1)) = [] \<and>
   r_store (remote (snd (drop_collection ''memories'' world1))) = []"
  using drop_collection_release_then_drop[of world0 "''memories''"]
    drop_collection_release_then_drop[of world1 "''memories''"]
  by (simp add: drop_collection_defs example_defs)

subsection \<open>\<open>insert\<close> sends one record\<close>

lemmas connect_defs =
  ensure_connection_def connect_def connect_body_def connect_one_def list_collections_def

lemmas insert_defs =
  insert_rows_def insert_body_def ensure_connection_def get_collection_def stamp_def
  first_item_def

text \<open>
  Claim C1 does not hold of the code: \<open>insert\<close> stamps every record of the list but
  passes only \<open>data[0]\<close> to \<open>Collection.insert\<close>. On a list of two records, with the
  collection present and the engine answering every call, the trace has one \<open>Insert\<close>,
  of the first record with its \<open>create_time\<close>, followed by the flush; the collection holds
  that one record, and the second is neither stored nor pending. The success line that is
  logged reports \<open>len(data)\<close> records.
\<close>

theorem insert_persists_first_record_only:
  "fst (insert_rows ''memories'' [row1, row2] world1) = Inr () \<and>
   map_option c_rows
     (map_of (r_store (remote (snd (insert_rows ''memories'' [row1, row2] world1))))
        ''memories'') =
     Some [row1 @ [(''create_time'', VInt 1700000000)]] \<and>
   map_option c_pending
     (map_of (r_store (remote (snd (insert_rows ''memories'' [row1, row2] world1))))
        ''memories'') =
     Some [] \<and>
   r_calls (remote (snd (insert_rows ''memories'' [row1, row2] world1))) =
     [LoadState ''memories'', Load ''memories'',
      Insert ''memories'' (row1 @ [(''create_time'', VInt 1700000000)]), Flush ''memories''] \<and>
   logger (snd (insert_rows ''memories'' [row1, row2] world1)) =
     [(Info, ''_get_collection: collection is not loaded, loading''),
      (Info, ''insert: inserted len(data) records'')]"
  by (simp add: insert_defs monad_defs pymilvus_defs example_defs)

subsection \<open>Operations that do not call \<open>_ensure_connection\<close>\<close>

text \<open>
  Claim C4 does not hold of the code: \<open>delete\<close> (as \<open>create_collection\<close>,
  \<open>get_latest_memory\<close> and \<open>drop_collection\<close>) does not call \<open>_ensure_connection\<close>.
  After \<open>close()\<close> the alias has no connection and the handles are still cached; there
  \<open>delete\<close> calls \<open>Collection.delete\<close> at once, the call fails for want of a connection,
  the failure is absorbed and the client stays disconnected. \<open>create_collection\<close>,
  \<open>get_latest_memory\<close> and \<open>drop_collection\<close> likewise start with a call on the engine.
  \<open>query\<close>, in the same state, connects first.
\<close>

theorem delete_skips_ensure_connection:
  "collections (snd (close world1)) = collections world_closed \<and>
   r_store (remote (snd (close world1))) = r_store (remote world_closed) \<and>
   \<not> r_connected (remote (snd (close world1))) \<and>
   \<not> r_connected (remote world_closed) \<and>
   fst (delete ''memories'' ''id > 0'' world_closed) = Inr () \<and>
   r_calls (remote (snd (delete ''memories'' ''id > 0'' world_closed))) =
     [Delete ''memories'' ''id > 0''] \<and>
   \<not> r_connected (remote (snd (delete ''memories'' ''id > 0'' world_closed))) \<and>
   logger (snd (delete ''memories'' ''id > 0'' world_closed)) =
     [(Error, ''delete: delete failed'')] \<and>
   r_calls (remote (snd (create_collection ''memories'' schema0 world_closed))) =
     [HasCollection ''memories''] \<and>
   r_calls (remote (snd (get_latest_memory ''memories'' 5 world_closed))) =
     [LoadState ''memories''] \<and>
   r_calls (remote (snd (drop_collection ''memories'' world_closed))) =
     [HasCollection ''memories''] \<and>
   r_calls (remote (snd (query ''memories'' ''id > 0'' [''*''] world_closed))) =
     [Connect ''default'' ''localhost'' ''19530'', ListCollections, HasCollection ''memories'',
      GetCollection ''memories'', Indexes ''memories'', Load ''memories'', Load ''memories'',
      Query ''memories'' ''id > 0'' [''*''] None None]"
  by (simp add: close_def delete_def delete_body_def connect_defs query_def query_body_def
      create_collection_def create_collection_body_def get_latest_memory_def
      get_latest_memory_body_def get_collection_def drop_collection_def
      drop_collection_body_def monad_defs pymilvus_defs example_defs)

subsection \<open>\<open>check_collection_schema_consistency\<close>\<close>

lemma existing_fields_of_Some:
  "existing_fields_of fs n = Some f \<Longrightarrow> f \<in> set fs \<and> fs_name f = n"
  unfolding existing_fields_of_def by (auto dest!: map_of_SomeD)

lemma existing_fields_of_None:
  "existing_fields_of fs n = None \<longleftrightarrow> n \<notin> fs_name ` set fs"
  unfolding existing_fields_of_def by (force simp add: map_of_eq_None_iff image_iff)

lemma existing_fields_of_distinct:
  assumes "distinct (map fs_name fs)" "f \<in> set fs"
  shows "existing_fields_of fs (fs_name f) = Some f"
proof -
  have "distinct (map fst (rev (map (\<lambda>f. (fs_name f, f)) fs)))"
    using assms(1) by (simp add: rev_map[symmetric] comp_def)
  moreover have "(fs_name f, f) \<in> set (rev (map (\<lambda>f. (fs_name f, f)) fs))"
    using assms(2) by auto
  ultimately show ?thesis unfolding existing_fields_of_def by (rule map_of_is_SomeI)
qed

lemma matches_iff_lookup:
  assumes "distinct (map fs_name fs)" "fd_name fd = Some n"
  shows "(\<exists>f \<in> set fs. field_matches fd f) \<longleftrightarrow>
         (\<exists>f. existing_fields_of fs n = Some f \<and> field_matches fd f)"
proof
  assume "\<exists>f \<in> set fs. field_matches fd f"
  then obtain f where f: "f \<in> set fs" "field_matches fd f" by blast
  then have "fs_name f = n" using assms(2) by (simp add: field_matches_def)
  with existing_fields_of_distinct[OF assms(1) f(1)] f(2) show
    "\<exists>f. existing_fields_of fs n = Some f \<and> field_matches fd f" by auto
next
  assume "\<exists>f. existing_fields_of fs n = Some f \<and> field_matches fd f"
  then show "\<exists>f \<in> set fs. field_matches fd f"
    using existing_fields_of_Some by blast
qed

lemma check_field_result:
  assumes "distinct (map fs_name fs)"
  shows "\<exists>w'. check_field fd fs w =
           (if fd_name fd = None then Inl (KeyError ''name'')
            else if fd_dtype fd = None then Inl (KeyError ''dtype'')
            else Inr (\<exists>f \<in> set fs. field_matches fd f), w') \<and>
         remote w' = remote w \<and> collections w' = collections w"
proof (cases "fd_name fd")
  case None
  then show ?thesis by (simp add: check_field_def monad_defs)
next
  case (Some n)
  note n = this
  show ?thesis
  proof (cases "fd_dtype fd")
    case None
    with n show ?thesis by (simp add: check_field_def monad_defs)
  next
    case (Some t)
    show ?thesis
      unfolding matches_iff_lookup[OF assms n]
      using n Some
      by (cases "existing_fields_of fs n")
         (auto simp add: check_field_def monad_defs field_matches_def dest: existing_fields_of_Some)
  qed
qed


lemma check_fields_Inr:
  assumes "distinct (map fs_name fs)"
  shows "check_fields fds fs w = (Inr b, w') \<Longrightarrow>
         b = (\<forall>fd \<in> set fds. \<exists>f \<in> set fs. field_matches fd f)"
proof (induction fds arbitrary: w)
  case Nil
  then show ?case by (simp add: ret_def)
next
  case (Cons fd fds)
  obtain w1 where w1: "check_field fd fs w =
           (if fd_name fd = None then Inl (KeyError ''name'')
            else if fd_dtype fd = None then Inl (KeyError ''dtype'')
            else Inr (\<exists>f \<in> set fs. field_matches fd f), w1)"
    using check_field_result[OF assms, of fd w] by blast
  show ?case
  proof (cases "fd_name fd \<noteq> None \<and> fd_dtype fd \<noteq> None \<and> (\<exists>f \<in> set fs. field_matches fd f)")
    case True
    with Cons.prems w1 have "check_fields fds fs w1 = (Inr b, w')"
      by (simp add: bnd_def)
    from Cons.IH[OF this] True show ?thesis by simp
  next
    case False
    with Cons.prems w1 show ?thesis
      by (auto simp add: bnd_def ret_def split: if_splits)
  qed
qed

lemma check_fields_Inl:
  assumes "distinct (map fs_name fs)"
  shows "check_fields fds fs w = (Inl e, w') \<Longrightarrow>
         \<not> (\<forall>fd \<in> set fds. \<exists>f \<in> set fs. field_matches fd f)"
proof (induction fds arbitrary: w)
  case Nil
  then show ?case by (simp add: ret_def)
next
  case (Cons fd fds)
  obtain w1 where w1: "check_field fd fs w =
           (if fd_name fd = None then Inl (KeyError ''name'')
            else if fd_dtype fd = None then Inl (KeyError ''dtype'')
            else Inr (\<exists>f \<in> set fs. field_matches fd f), w1)"
    using check_field_result[OF assms, of fd w] by blast
  show ?case
  proof (cases "fd_name fd \<noteq> None \<and> fd_dtype fd \<noteq> None \<and> (\<exists>f \<in> set fs. field_matches fd f)")
    case True
    with Cons.prems w1 have "check_fields fds fs w1 = (Inl e, w')"
      by (simp add: bnd_def)
    from Cons.IH[OF this] show ?thesis by simp
  next
    case False
    then show ?thesis by (auto simp: field_matches_def)
  qed
qed

lemma field_names_matched:
  "\<forall>fd \<in> set fds. \<exists>f \<in> set fs. field_matches fd f \<Longrightarrow>
   field_names fds = Inr (map (the \<circ> fd_name) fds)"
  by (induction fds) (auto simp: getitem_def field_matches_def)

lemma no_extra_fields:
  assumes "\<forall>fd \<in> set fds. \<exists>f \<in> set fs. field_matches fd f"
  shows "(fs_name ` set fs \<subseteq> (\<lambda>fd. the (fd_name fd)) ` set fds) =
         (\<forall>f \<in> set fs. \<exists>fd \<in> set fds. fd_name fd = Some (fs_name f))"
proof -
  have names: "\<forall>fd \<in> set fds. fd_name fd \<noteq> None"
    using assms by (auto simp: field_matches_def)
  show ?thesis
  proof
    assume l: "fs_name ` set fs \<subseteq> (\<lambda>fd. the (fd_name fd)) ` set fds"
    show "\<forall>f \<in> set fs. \<exists>fd \<in> set fds. fd_name fd = Some (fs_name f)"
    proof
      fix f assume "f \<in> set fs"
      with l have "fs_name f \<in> (\<lambda>fd. the (fd_name fd)) ` set fds" by auto
      then obtain fd where "fd \<in> set fds" "the (fd_name fd) = fs_name f" by auto
      with names show "\<exists>fd \<in> set fds. fd_name fd = Some (fs_name f)" by force
    qed
  next
    assume r: "\<forall>f \<in> set fs. \<exists>fd \<in> set fds. fd_name fd = Some (fs_name f)"
    show "fs_name ` set fs \<subseteq> (\<lambda>fd. the (fd_name fd)) ` set fds"
    proof
      fix x assume "x \<in> fs_name ` set fs"
      then obtain f where f: "f \<in> set fs" "x = fs_name f" by auto
      from r f(1) obtain fd where "fd \<in> set fds" "fd_name fd = Some (fs_name f)" by blast
      with f(2) show "x \<in> (\<lambda>fd. the (fd_name fd)) ` set fds" by force
    qed
  qed
qed

lemmas check_defs =
  check_collection_schema_consistency_def check_body_def ensure_connection_connected
  bnd_def ret_def lift_def getitem_def logmsg_def try_except_def
  utility_has_collection_def Collection_existing_def remote_call_def Let_def

text \<open>The result of the check on a connection that is up: true when the expected schema
  has a field and the actual field set is exactly the expected one.\<close>

lemma check_schema_connected:
  assumes "r_connected (remote w)" "r_faults (remote w) = {}"
    "map_of (r_store (remote w)) n = Some cd" "distinct (map fs_name (c_fields cd))"
    "sch_fields s = Some fds"
  shows "fst (check_collection_schema_consistency n s w) =
         Inr (fds \<noteq> [] \<and> same_field_set fds (c_fields cd))"
proof (cases "fds = [] \<or> c_fields cd = []")
  case True
  with assms show ?thesis
    by (cases fds) (auto simp add: check_defs same_field_set_def)
next
  case False
  note CI = check_fields_Inr[OF assms(4)] and CE = check_fields_Inl[OF assms(4)]
  show ?thesis
  proof (cases "\<forall>fd \<in> set fds. \<exists>f \<in> set (c_fields cd). field_matches fd f")
    case True
    note fn = field_names_matched[OF True] and ne = no_extra_fields[OF True]
    have k1: "check_fields fds (c_fields cd) W = (Inl e, w') \<Longrightarrow> False" for W e w'
      using CE True by blast
    have k2: "check_fields fds (c_fields cd) W = (Inr False, w') \<Longrightarrow> False" for W w'
      using CI[of fds W False w'] True by blast
    from False True assms show ?thesis
      by (auto simp add: check_defs same_field_set_def fn ne
          split: prod.splits sum.splits error.splits dest: k1 k2)
  next
    case no: False
    have k3: "check_fields fds (c_fields cd) W = (Inr True, w') \<Longrightarrow> False" for W w'
      using CI[of fds W True w'] no by blast
    have "\<not> same_field_set fds (c_fields cd)"
      using no by (simp add: same_field_set_def)
    with False assms show ?thesis
      by (auto simp add: check_defs split: prod.splits sum.splits error.splits dest: k3)
  qed
qed

subsection \<open>\<open>create_collection\<close> provisions the indexes\<close>

lemma build_field_Inr:
  "build_field fd = Inr f \<Longrightarrow> fd_name fd = Some (fs_name f) \<and> fd_dtype fd = Some (fs_dtype f)"
  by (auto simp: build_field_def getitem_def Let_def split: option.splits if_splits)

lemma col_create_index_ready:
  assumes "index_ready n cd w"
  shows "col_create_index (Collection n fs) fname p w =
     (Inr (),
      w\<lparr>remote := (remote w)
          \<lparr>r_calls := r_calls (remote w) @ [CreateIndex n fname p],
           r_store := AList.update n (cd\<lparr>c_indexes := c_indexes cd @ [(fname, p)]\<rparr>)
                        (r_store (remote w))\<rparr>\<rparr>)"
  using assms
  by (simp add: index_ready_def col_create_index_def on_collection_def remote_call_def Let_def)

lemma col_flush_ready:
  assumes "index_ready n cd w"
  shows "col_flush (Collection n fs) w =
     (Inr (),
      w\<lparr>remote := (remote w)
          \<lparr>r_calls := r_calls (remote w) @ [Flush n],
           r_store := AList.update n (cd\<lparr>c_rows := c_rows cd @ c_pending cd, c_pending := []\<rparr>)
                        (r_store (remote w))\<rparr>\<rparr>)"
  using assms
  by (simp add: index_ready_def col_flush_def on_collection_def remote_call_def Let_def)

lemma index_ready_logged:
  "index_ready n cd (w\<lparr>logger := l\<rparr>) = index_ready n cd w"
  by (simp add: index_ready_def)

lemma create_index_for_step:
  assumes "index_ready n cd w" "build_field fd = Inr f"
  shows "\<exists>w'. create_index_for n fd w = (Inr (), w') \<and>
           index_ready n (cd\<lparr>c_indexes := c_indexes cd @ vector_indexes [fd]\<rparr>) w' \<and>
           r_calls (remote w') =
             r_calls (remote w) @ map (\<lambda>(f, p). CreateIndex n f p) (vector_indexes [fd])"
proof -
  from build_field_Inr[OF assms(2)] have nm: "fd_name fd = Some (fs_name f)"
    and dt: "fd_dtype fd = Some (fs_dtype f)" by simp_all
  from assms(1) obtain fs where c: "map_of (collections w) n = Some (Collection n fs)"
    by (auto simp: index_ready_def)
  show ?thesis
  proof (cases "fs_dtype f = FLOAT_VECTOR")
    case False
    with nm dt assms(1) show ?thesis
      by (simp add: create_index_for_def vector_indexes_def monad_defs)
  next
    case True
    show ?thesis
    proof (cases "get_default (fd_index_params fd) [] = []")
      case e: True
      then have p: "index_params_for fd = default_index_params"
        by (auto simp: index_params_for_def get_default_def split: option.splits)
      have r: "index_ready n cd (w\<lparr>logger := l\<rparr>)" for l
        using assms(1) by (simp add: index_ready_logged)
      show ?thesis
        using True nm dt c e p assms(1)
        by (simp add: create_index_for_def vector_indexes_def lift_def getitem_def bnd_def
            ret_def logmsg_def cache_getitem_def col_create_index_ready[OF r]
            index_ready_def update_conv' get_default_def)
    next
      case ne: False
      then have p: "index_params_for fd = get_default (fd_index_params fd) []"
        by (auto simp: index_params_for_def get_default_def split: option.splits)
      have r: "index_ready n cd (w\<lparr>logger := l\<rparr>)" for l
        using assms(1) by (simp add: index_ready_logged)
      show ?thesis
        using True nm dt c ne p assms(1)
        by (simp add: create_index_for_def vector_indexes_def lift_def getitem_def bnd_def
            ret_def logmsg_def cache_getitem_def col_create_index_ready[OF r]
            index_ready_def update_conv' get_default_def)
    qed
  qed
qed

lemma vector_indexes_append:
  "vector_indexes (xs @ ys) = vector_indexes xs @ vector_indexes ys"
  by (simp add: vector_indexes_def)

lemma create_indexes_run:
  assumes "index_ready n cd w" "build_fields fds = Inr fs"
  shows "\<exists>w'. create_indexes n fds w = (Inr (), w') \<and>
           index_ready n (cd\<lparr>c_indexes := c_indexes cd @ vector_indexes fds\<rparr>) w' \<and>
           r_calls (remote w') =
             r_calls (remote w) @ map (\<lambda>(f, p). CreateIndex n f p) (vector_indexes fds)"
  using assms
proof (induction fds arbitrary: w cd fs)
  case Nil
  then show ?case by (simp add: ret_def vector_indexes_def)
next
  case (Cons fd fds)
  from Cons.prems(2) obtain f fs' where f: "build_field fd = Inr f"
    and fs': "build_fields fds = Inr fs'"
    by (auto split: sum.splits)
  from create_index_for_step[OF Cons.prems(1) f] obtain w1 where
    w1: "create_index_for n fd w = (Inr (), w1)"
      "index_ready n (cd\<lparr>c_indexes := c_indexes cd @ vector_indexes [fd]\<rparr>) w1"
      "r_calls (remote w1) =
         r_calls (remote w) @ map (\<lambda>(f, p). CreateIndex n f p) (vector_indexes [fd])"
    by blast
  from Cons.IH[OF w1(2) fs'] obtain w' where
    w': "create_indexes n fds w1 = (Inr (), w')"
      "index_ready n (cd\<lparr>c_indexes := (c_indexes cd @ vector_indexes [fd]) @ vector_indexes fds\<rparr>) w'"
      "r_calls (remote w') =
         r_calls (remote w1) @ map (\<lambda>(f, p). CreateIndex n f p) (vector_indexes fds)"
    by auto
  show ?case
    using w1 w' vector_indexes_append[of "[fd]" fds] by (simp add: bnd_def)
qed

lemma create_collection_run:
  assumes "r_connected (remote w)" "r_faults (remote w) = {}"
    "map_of (r_store (remote w)) n = None"
    "sch_fields s = Some fds" "build_fields fds = Inr fs" "r_accepts (remote w) fs"
  shows "fst (create_collection n s w) = Inr () \<and>
         map_of (r_store (remote (snd (create_collection n s w)))) n =
           Some ((new_collection fs (get_default (sch_description s) []))
                   \<lparr>c_indexes := vector_indexes fds\<rparr>) \<and>
         r_calls (remote (snd (create_collection n s w))) =
           r_calls (remote w) @
           [HasCollection n, CreateCollection n fs (get_default (sch_description s) [])] @
           map (\<lambda>(f, p). CreateIndex n f p) (vector_indexes fds) @ [Flush n]"
proof -
  define d where "d = get_default (sch_description s) []"
  define W where "W =
    w\<lparr>remote := (remote w)
        \<lparr>r_calls := r_calls (remote w) @ [HasCollection n, CreateCollection n fs d],
         r_store := r_store (remote w) @ [(n, new_collection fs d)]\<rparr>,
      collections := AList.update n (Collection n fs) (collections w),
      logger := logger w @ [(Info, ''create_collection: collection created'')]\<rparr>"
  have step: "create_collection_body n s w =
      bnd (create_indexes n fds) (\<lambda>_. bnd (cache_getitem n) (\<lambda>col'. col_flush col')) W"
    using assms
    by (simp add: create_collection_body_def W_def d_def monad_defs utility_has_collection_def
        Collection_create_def remote_call_def Let_def)
  have ready: "index_ready n (new_collection fs d) W"
    using assms by (simp add: index_ready_def W_def update_conv' map_add_def)
  from create_indexes_run[OF ready assms(5)] obtain w' where
    w': "create_indexes n fds W = (Inr (), w')"
      "index_ready n ((new_collection fs d)\<lparr>c_indexes := c_indexes (new_collection fs d) @ vector_indexes fds\<rparr>) w'"
      "r_calls (remote w') = r_calls (remote W) @ map (\<lambda>(f, p). CreateIndex n f p) (vector_indexes fds)"
    by blast
  from w'(2) obtain fs' where c: "map_of (collections w') n = Some (Collection n fs')"
    by (auto simp: index_ready_def)
  have body: "create_collection_body n s w = col_flush (Collection n fs') w'"
    using w'(1) c by (simp add: step bnd_def cache_getitem_def getitem_def)
  have res: "create_collection n s w = col_flush (Collection n fs') w'"
    by (simp add: create_collection_def try_except_def body col_flush_ready[OF w'(2)])
  show ?thesis
    using w'(3)
    by (simp add: res col_flush_ready[OF w'(2)] update_conv' new_collection_def W_def d_def)
qed

lemma vector_indexes_mem:
  "fd \<in> set fds \<Longrightarrow> fd_dtype fd = Some FLOAT_VECTOR \<Longrightarrow>
   (get_default (fd_name fd) [], index_params_for fd) \<in> set (vector_indexes fds)"
  by (auto simp: vector_indexes_def)

lemma build_fields_names:
  "build_fields fds = Inr fs \<Longrightarrow> fd \<in> set fds \<Longrightarrow> \<exists>fname. fd_name fd = Some fname"
proof (induction fds arbitrary: fs)
  case Nil
  then show ?case by simp
next
  case (Cons a fds)
  from Cons.prems(1) obtain f fs' where f: "build_field a = Inr f"
    and fs': "build_fields fds = Inr fs'"
    by (auto split: sum.splits)
  show ?case
  proof (cases "fd = a")
    case True
    with build_field_Inr[OF f] show ?thesis by simp
  next
    case False
    with Cons.prems(2) Cons.IH[OF fs'] show ?thesis by simp
  qed
qed

text \<open>
  Claim C7. Let the connection be up and the engine answer every call, let the name be
  free, and let the schema be one the first loop builds without a \<open>KeyError\<close> and the
  engine accepts. Then \<open>create_collection\<close> returns normally, the collection exists with
  the fields built from the schema, and for every field of the schema whose data type is
  \<open>FLOAT_VECTOR\<close> a \<open>create_index\<close> call was made on that field's name and the index is
  on the collection, with the parameters the caller gave for the field when there are
  such (a dictionary that is not empty), and with \<open>IVF_FLAT\<close>, metric \<open>L2\<close> and
  \<open>nlist = 256\<close> when there are none.
\<close>

theorem create_collection_provisions_indexes:
  assumes "r_connected (remote w)" "r_faults (remote w) = {}"
    "map_of (r_store (remote w)) n = None"
    "sch_fields s = Some fds" "build_fields fds = Inr fs" "r_accepts (remote w) fs"
  shows "fst (create_collection n s w) = Inr () \<and>
    (\<exists>cd. map_of (r_store (remote (snd (create_collection n s w)))) n = Some cd \<and>
       c_fields cd = fs \<and>
       (\<forall>fd \<in> set fds. fd_dtype fd = Some FLOAT_VECTOR \<longrightarrow>
          (\<exists>fname p. fd_name fd = Some fname \<and>
             (fname, p) \<in> set (c_indexes cd) \<and>
             CreateIndex n fname p \<in> set (r_calls (remote (snd (create_collection n s w)))) \<and>
             (\<forall>q. fd_index_params fd = Some q \<and> q \<noteq> [] \<longrightarrow> p = q) \<and>
             (fd_index_params fd = None \<or> fd_index_params fd = Some [] \<longrightarrow>
                p = [(''index_type'', PStr ''IVF_FLAT''), (''metric_type'', PStr ''L2''),
                     (''params'', PDict [(''nlist'', PInt 256)])]))))"
proof -
  let ?w' = "snd (create_collection n s w)"
  let ?cd = "(new_collection fs (get_default (sch_description s) []))
               \<lparr>c_indexes := vector_indexes fds\<rparr>"
  note run = create_collection_run[OF assms]
  have "\<exists>fname p. fd_name fd = Some fname \<and>
             (fname, p) \<in> set (c_indexes ?cd) \<and>
             CreateIndex n fname p \<in> set (r_calls (remote ?w')) \<and>
             (\<forall>q. fd_index_params fd = Some q \<and> q \<noteq> [] \<longrightarrow> p = q) \<and>
             (fd_index_params fd = None \<or> fd_index_params fd = Some [] \<longrightarrow>
                p = [(''index_type'', PStr ''IVF_FLAT''), (''metric_type'', PStr ''L2''),
                     (''params'', PDict [(''nlist'', PInt 256)])])"
    if fd: "fd \<in> set fds" "fd_dtype fd = Some FLOAT_VECTOR" for fd
  proof -
    from build_fields_names[OF assms(5) fd(1)] obtain fname where nm: "fd_name fd = Some fname"
      by blast
    have mem: "(fname, index_params_for fd) \<in> set (vector_indexes fds)"
      using vector_indexes_mem[OF fd] nm by (simp add: get_default_def)
    then have call: "CreateIndex n fname (index_params_for fd) \<in> set (r_calls (remote ?w'))"
      using run by force
    have p1: "\<forall>q. fd_index_params fd = Some q \<and> q \<noteq> [] \<longrightarrow> index_params_for fd = q"
      by (simp add: index_params_for_def)
    have p2: "fd_index_params fd = None \<or> fd_index_params fd = Some [] \<longrightarrow>
        index_params_for fd =
          [(''index_type'', PStr ''IVF_FLAT''), (''metric_type'', PStr ''L2''),
           (''params'', PDict [(''nlist'', PInt 256)])]"
      by (auto simp: index_params_for_def default_index_params_def)
    from nm mem call p1 p2 show ?thesis by (intro exI[of _ fname] exI[of _ "index_params_for fd"]) simp
  qed
  moreover have "c_fields ?cd = fs" by (simp add: new_collection_def)
  moreover have "map_of (r_store (remote ?w')) n = Some ?cd" using run by simp
  moreover have "fst (create_collection n s w) = Inr ()" using run by simp
  ultimately show ?thesis by blast
qed

theorem create_collection_provisions_indexes_witness:
  "r_connected (remote world0) \<and> r_faults (remote world0) = {} \<and>
   map_of (r_store (remote world0)) ''memories'' = None \<and>
   build_fields [fd_id, fd_embedding, fd_text, fd_create_time] = Inr fields0 \<and>
   r_accepts (remote world0) fields0 \<and>
   fd_index_params fd_embedding = None \<and>
   fst (create_collection ''memories'' schema0 world0) = Inr () \<and>
   (\<exists>cd. map_of (r_store (remote (snd (create_collection ''memories'' schema0 world0))))
            ''memories'' = Some cd \<and>
      c_fields cd = fields0 \<and>
      (''embedding'', [(''index_type'', PStr ''IVF_FLAT''), (''metric_type'', PStr ''L2''),
                       (''params'', PDict [(''nlist'', PInt 256)])]) \<in> set (c_indexes cd)) \<and>
   (\<exists>cd. map_of (r_store (remote (snd (create_collection ''memories'' schema_hnsw world0))))
            ''memories'' = Some cd \<and>
      c_fields cd = fields0 \<and> (''embedding'', hnsw_params) \<in> set (c_indexes cd))"
proof -
  have b: "build_fields [fd_id, fd_embedding, fd_text, fd_create_time] = Inr fields0"
    by (simp add: build_field_def getitem_def get_default_def example_defs)
  have b': "build_fields [fd_id, fd_embedding\<lparr>fd_index_params := Some hnsw_params\<rparr>, fd_text,
      fd_create_time] = Inr fields0"
    by (simp add: build_field_def getitem_def get_default_def example_defs)
  have h: "r_connected (remote world0)" "r_faults (remote world0) = {}"
    "map_of (r_store (remote world0)) ''memories'' = None" "r_accepts (remote world0) fields0"
    by (simp_all add: example_defs)
  have s: "sch_fields schema0 = Some [fd_id, fd_embedding, fd_text, fd_create_time]"
    "sch_fields schema_hnsw =
       Some [fd_id, fd_embedding\<lparr>fd_index_params := Some hnsw_params\<rparr>, fd_text, fd_create_time]"
    by (simp_all add: schema0_def schema_hnsw_def)
  have e: "fd_index_params fd_embedding = None" "fd_dtype fd_embedding = Some FLOAT_VECTOR"
    "fd_name fd_embedding = Some ''embedding''"
    by (simp_all add: fd_embedding_def fd0_def)
  from create_collection_provisions_indexes[OF h(1,2,3) s(1) b h(4)]
  have 1: "fst (create_collection ''memories'' schema0 world0) = Inr () \<and>
    (\<exists>cd. map_of (r_store (remote (snd (create_collection ''memories'' schema0 world0))))
            ''memories'' = Some cd \<and>
      c_fields cd = fields0 \<and>
      (''embedding'', [(''index_type'', PStr ''IVF_FLAT''), (''metric_type'', PStr ''L2''),
                       (''params'', PDict [(''nlist'', PInt 256)])]) \<in> set (c_indexes cd))"
    using e by fastforce
  from create_collection_provisions_indexes[OF h(1,2,3) s(2) b' h(4)]
  have 2: "\<exists>cd. map_of (r_store (remote (snd (create_collection ''memories'' schema_hnsw world0))))
            ''memories'' = Some cd \<and>
      c_fields cd = fields0 \<and> (''embedding'', hnsw_params) \<in> set (c_indexes cd)"
    using e by (fastforce simp: hnsw_params_def)
  from b h e 1 2 show ?thesis by simp
qed

subsection \<open>What the operations keep\<close>

lemma preservesD: "preserves P m \<Longrightarrow> P w \<Longrightarrow> P (snd (m w))"
  by (simp add: preserves_def)

lemma preserves_bnd:
  assumes "preserves P m" "\<And>x. preserves P (f x)"
  shows "preserves P (bnd m f)"
  unfolding preserves_def
proof (intro allI impI)
  fix w assume "P w"
  then have 1: "P (snd (m w))" using assms(1) by (simp add: preserves_def)
  show "P (snd (bnd m f w))"
  proof (cases "m w")
    case (Pair res w')
    with 1 have "P w'" by simp
    with Pair assms(2) show ?thesis
      by (cases res) (simp_all add: bnd_def preserves_def)
  qed
qed

lemma preserves_try_except:
  assumes "preserves P m" "\<And>e. preserves P (h e)"
  shows "preserves P (try_except m h)"
  unfolding preserves_def
proof (intro allI impI)
  fix w assume "P w"
  then have 1: "P (snd (m w))" using assms(1) by (simp add: preserves_def)
  show "P (snd (try_except m h w))"
  proof (cases "m w")
    case (Pair res w')
    with 1 have "P w'" by simp
    with Pair assms(2) show ?thesis
      by (cases res) (simp_all add: try_except_def preserves_def)
  qed
qed

lemma preserves_pure:
  "preserves P (ret x)" "preserves P (raise e)" "preserves P (lift v)"
  "preserves P connections_has_connection" "preserves P (cache_get n)"
  by (simp_all add: preserves_def ret_def raise_def lift_def connections_has_connection_def
      cache_get_def)

lemma preserves_if:
  "preserves P a \<Longrightarrow> preserves P b \<Longrightarrow> preserves P (if c then a else b)"
  by simp

lemma holds_logger: "holds i (w\<lparr>logger := l\<rparr>) = holds i w"
  by (cases i) (simp_all add: cache_ok_def schema_of_def embedding_only_def)

lemma preserves_logmsg: "preserves (holds i) (logmsg l msg)"
  by (simp add: preserves_def logmsg_def holds_logger)

lemma preserves_connections_connect: "preserves (holds i) connections_connect"
  by (cases i)
     (simp_all add: preserves_def connections_connect_def Let_def cache_ok_def schema_of_def
      embedding_only_def searches_embedding_def)

lemma preserves_cache_clear: "preserves (holds i) cache_clear"
  by (cases i)
     (simp_all add: preserves_def cache_clear_def cache_ok_def schema_of_def embedding_only_def)

text \<open>A call that leaves the schemas and the connection alone and is not a search on
  another field.\<close>

lemma preserves_remote_call:
  assumes "searches_embedding c"
    and "\<And>r x r'. sem r = Inr (x, r') \<Longrightarrow>
           r_calls r' = r_calls r \<and> r_connected r' = r_connected r \<and>
           r_faults r' = r_faults r \<and>
           (\<forall>n. map_option c_fields (map_of (r_store r') n) =
                map_option c_fields (map_of (r_store r) n))"
  shows "preserves (holds i) (remote_call c sem)"
proof -
  have "holds i (snd (remote_call c sem w))" if h: "holds i w" for w
  proof (cases "sem ((remote w)\<lparr>r_calls := r_calls (remote w) @ [c]\<rparr>)")
    case (Inl e)
    with h assms(1) show ?thesis
      by (cases i)
         (simp_all add: remote_call_def Let_def cache_ok_def schema_of_def embedding_only_def)
  next
    case (Inr p)
    obtain x r' where p: "p = (x, r')" by (cases p)
    from assms(2)[of "(remote w)\<lparr>r_calls := r_calls (remote w) @ [c]\<rparr>" x r'] Inr p
    have r': "r_calls r' = r_calls (remote w) @ [c]"
      "r_connected r' = r_connected (remote w)" "r_faults r' = r_faults (remote w)"
      "\<And>n. map_option c_fields (map_of (r_store r') n) =
                map_option c_fields (map_of (r_store (remote w)) n)"
      by simp_all
    with h assms(1) Inr p show ?thesis
      by (cases i)
         (simp_all add: remote_call_def Let_def cache_ok_def schema_of_def embedding_only_def)
  qed
  then show ?thesis by (simp add: preserves_def)
qed

lemma preserves_on_collection:
  assumes "searches_embedding c"
    and "\<And>r cd x cd'. f r cd = Inr (x, cd') \<Longrightarrow> c_fields cd' = c_fields cd"
  shows "preserves (holds i) (on_collection c name f)"
  unfolding on_collection_def
proof (rule preserves_remote_call[OF assms(1)])
  fix r x r'
  assume a: "(case map_of (r_store r) name of
         None \<Rightarrow> Inl (MilvusException c)
       | Some cd \<Rightarrow>
           (case f r cd of
              Inl e \<Rightarrow> Inl e
            | Inr (x, cd') \<Rightarrow> Inr (x, r\<lparr>r_store := AList.update name cd' (r_store r)\<rparr>))) =
       Inr (x, r')"
  then obtain cd cd' where cd: "map_of (r_store r) name = Some cd" "f r cd = Inr (x, cd')"
    "r' = r\<lparr>r_store := AList.update name cd' (r_store r)\<rparr>"
    by (auto split: option.splits sum.splits)
  from assms(2)[OF cd(2)] cd(1,3)
  show "r_calls r' = r_calls r \<and> r_connected r' = r_connected r \<and>
           r_faults r' = r_faults r \<and>
           (\<forall>n. map_option c_fields (map_of (r_store r') n) =
                map_option c_fields (map_of (r_store r) n))"
    by (simp add: update_conv')
qed

lemma preserves_calls:
  "preserves (holds i) utility_list_collections"
  "preserves (holds i) (utility_has_collection k)"
  "preserves (holds i) (Collection_existing k)"
  "preserves (holds i) (col_indexes col)"
  "preserves (holds i) (col_load col)"
  "preserves (holds i) (col_search col d ''embedding'' p top_k ex)"
  unfolding utility_list_collections_def utility_has_collection_def Collection_existing_def
    col_indexes_def col_load_def col_search_def Let_def
  by (rule preserves_remote_call preserves_on_collection;
      auto simp: searches_embedding_def split: option.splits if_splits)+


lemma preserves_bnd_result:
  assumes "preserves P m" "\<And>x. \<exists>w. fst (m w) = Inr x \<Longrightarrow> preserves P (f x)"
  shows "preserves P (bnd m f)"
  unfolding preserves_def
proof (intro allI impI)
  fix w assume "P w"
  then have 1: "P (snd (m w))" using assms(1) by (simp add: preserves_def)
  show "P (snd (bnd m f w))"
  proof (cases "m w")
    case (Pair res w')
    with 1 have w': "P w'" by simp
    show ?thesis
    proof (cases res)
      case (Inl e)
      with Pair w' show ?thesis by (simp add: bnd_def)
    next
      case (Inr x)
      with Pair have "fst (m w) = Inr x" by simp
      then have "preserves P (f x)" by (intro assms(2) exI[of _ w])
      with Pair Inr w' show ?thesis by (simp add: bnd_def preserves_def)
    qed
  qed
qed

lemma Collection_existing_name:
  "\<exists>w. fst (Collection_existing k w) = Inr col \<Longrightarrow> col_name col = k"
  by (auto simp: Collection_existing_def remote_call_def Let_def
      split: if_splits option.splits)

lemma preserves_cache_put: "col_name col = k \<Longrightarrow> preserves (holds i) (cache_put k col)"
  by (cases i)
     (simp_all add: preserves_def cache_put_def cache_ok_def schema_of_def embedding_only_def
      update_conv')

lemma preserves_connect_one: "preserves (holds i) (connect_one k)"
  unfolding connect_one_def
  by (intro preserves_try_except preserves_bnd_result preserves_if preserves_logmsg
      preserves_calls preserves_cache_put Collection_existing_name)

lemma preserves_connect_loop: "preserves (holds i) (connect_loop ks)"
  by (induction ks) (auto intro: preserves_pure preserves_bnd preserves_connect_one)

lemma preserves_ensure_connection: "preserves (holds i) ensure_connection"
  unfolding ensure_connection_def connect_def connect_body_def list_collections_def
  by (intro preserves_try_except preserves_bnd preserves_if preserves_logmsg
      preserves_calls preserves_pure preserves_connections_connect preserves_cache_clear
      preserves_connect_loop)

subsection \<open>\<open>_ensure_connection\<close> on an engine that answers\<close>

lemma preserves_connect_rest:
  "preserves (holds i)
     (bnd (logmsg Info msg) (\<lambda>_. bnd list_collections (\<lambda>existing_collections.
        bnd cache_clear (\<lambda>_. connect_loop existing_collections))))"
  unfolding list_collections_def
  by (intro preserves_try_except preserves_bnd preserves_logmsg preserves_calls
      preserves_pure preserves_cache_clear preserves_connect_loop)

lemma connect_returns:
  assumes "length (r_calls (remote w)) \<notin> r_faults (remote w)"
  shows "fst (connect w) = Inr ()" and "r_connected (remote (snd (connect w)))"
proof -
  have "\<not> (\<exists>e. fst (connect_body w) = Inl e)"
    using assms by (simp add: connect_body_fails_iff)
  then have body: "fst (connect_body w) = Inr ()"
    by (cases "fst (connect_body w)") auto
  then show r: "fst (connect w) = Inr ()" by (simp add: connect_fst)
  have same: "connect w = connect_body w"
    unfolding connect_def using body by (rule try_except_passed)
  define w1 where "w1 = snd (connections_connect w)"
  have c: "connections_connect w = (Inr (), w1)" and up: "r_connected (remote w1)"
    using assms by (simp_all add: w1_def connections_connect_def Let_def)
  have "holds Connected (snd (bnd (logmsg Info ''connect: connected to Milvus'')
      (\<lambda>_. bnd list_collections (\<lambda>existing_collections.
        bnd cache_clear (\<lambda>_. connect_loop existing_collections))) w1))"
    using preservesD[OF preserves_connect_rest[of Connected], of w1] up by simp
  moreover have "connect_body w =
      bnd (logmsg Info ''connect: connected to Milvus'')
        (\<lambda>_. bnd list_collections (\<lambda>existing_collections.
          bnd cache_clear (\<lambda>_. connect_loop existing_collections))) w1"
    using c by (simp add: connect_body_def bnd_def)
  ultimately show "r_connected (remote (snd (connect w)))" by (simp add: same)
qed

lemma ensure_connection_reconnects:
  assumes "r_faults (remote w) = {}"
  shows "fst (ensure_connection w) = Inr ()"
    and "r_connected (remote (snd (ensure_connection w)))"
proof -
  show "fst (ensure_connection w) = Inr ()"
  proof (cases "r_connected (remote w)")
    case True
    then show ?thesis by (simp add: ensure_connection_connected)
  next
    case False
    then have "ensure_connection w =
        connect (w\<lparr>logger := logger w @
          [(Warning, ''_ensure_connection: connection lost, reconnecting'')]\<rparr>)"
      by (simp add: ensure_connection_def bnd_def connections_has_connection_def logmsg_def)
    with assms show ?thesis by (simp add: connect_returns(1))
  qed
  show "r_connected (remote (snd (ensure_connection w)))"
  proof (cases "r_connected (remote w)")
    case True
    then show ?thesis by (simp add: ensure_connection_connected)
  next
    case False
    then have "ensure_connection w =
        connect (w\<lparr>logger := logger w @
          [(Warning, ''_ensure_connection: connection lost, reconnecting'')]\<rparr>)"
      by (simp add: ensure_connection_def bnd_def connections_has_connection_def logmsg_def)
    with assms show ?thesis by (simp add: connect_returns(2))
  qed
qed

subsection \<open>\<open>check_collection_schema_consistency\<close> on any connection\<close>

lemma check_body_reconnect:
  "ensure_connection w = (Inr (), w1) \<Longrightarrow> r_connected (remote w1) \<Longrightarrow>
   check_body n s w = check_body n s w1"
  by (simp add: check_body_def bnd_def ensure_connection_connected)

lemma check_schema_general:
  assumes "r_faults (remote w) = {}" "map_of (r_store (remote w)) n = Some cd"
    "distinct (map fs_name (c_fields cd))" "sch_fields s = Some fds"
  shows "fst (check_collection_schema_consistency n s w) =
         Inr (fds \<noteq> [] \<and> same_field_set fds (c_fields cd))"
proof -
  define w1 where "w1 = snd (ensure_connection w)"
  have e: "ensure_connection w = (Inr (), w1)"
    using ensure_connection_reconnects(1)[OF assms(1)] by (simp add: w1_def prod_eq_iff)
  have c: "r_connected (remote w1)"
    using ensure_connection_reconnects(2)[OF assms(1)] by (simp add: w1_def)
  have f: "r_faults (remote w1) = {}"
    using preservesD[OF preserves_ensure_connection[of NoFaults], of w] assms(1)
    by (simp add: w1_def)
  have "schema_of w1 n = Some (c_fields cd)"
    using preservesD[OF preserves_ensure_connection[of "SchemaIs n (Some (c_fields cd))"], of w]
      assms(2)
    by (simp add: w1_def schema_of_def)
  then obtain cd1 where cd1: "map_of (r_store (remote w1)) n = Some cd1"
    "c_fields cd1 = c_fields cd"
    by (auto simp: schema_of_def)
  have "fst (check_collection_schema_consistency n s w1) =
         Inr (fds \<noteq> [] \<and> same_field_set fds (c_fields cd1))"
    using assms(3) by (intro check_schema_connected c f cd1(1) assms(4)) (simp add: cd1(2))
  moreover have "check_collection_schema_consistency n s w =
      check_collection_schema_consistency n s w1"
    by (simp add: check_collection_schema_consistency_def try_except_def
        check_body_reconnect[OF e c])
  ultimately show ?thesis by (simp add: cd1(2))
qed

text \<open>
  Claim C2. Let the collection exist on an engine that answers; a collection has at least
  one field (the primary key) and its field names are distinct. Then, whether the
  connection is up or the check has to reconnect first, for every expected schema the
  check returns true if and only if the actual field set is exactly the expected one:
  every expected field has an actual field of the same name, of equal data type, of equal
  \<open>max_length\<close> if \<open>VARCHAR\<close> and of equal \<open>dim\<close> if \<open>FLOAT_VECTOR\<close>, and no actual
  field has a name outside the expected names. So an extra field, a missing field or a
  changed data type, length or dimension makes it false, and so does an expected schema
  with no field.
\<close>

theorem check_schema_consistency_iff:
  assumes "r_faults (remote w) = {}" "map_of (r_store (remote w)) n = Some cd"
    "c_fields cd \<noteq> []" "distinct (map fs_name (c_fields cd))" "sch_fields s = Some fds"
  shows "fst (check_collection_schema_consistency n s w) =
         Inr (same_field_set fds (c_fields cd))"
proof -
  have "(fds \<noteq> [] \<and> same_field_set fds (c_fields cd)) = same_field_set fds (c_fields cd)"
    using assms(3) by (cases fds) (auto simp: same_field_set_def)
  with check_schema_general[OF assms(1,2,4,5)] show ?thesis by simp
qed

theorem check_schema_consistency_iff_witness:
  "r_faults (remote world1) = {} \<and> r_faults (remote world_closed) = {} \<and>
   \<not> r_connected (remote world_closed) \<and>
   map_of (r_store (remote world1)) ''memories'' = Some memories0 \<and>
   map_of (r_store (remote world_closed)) ''memories'' = Some memories0 \<and>
   c_fields memories0 \<noteq> [] \<and> distinct (map fs_name (c_fields memories0)) \<and>
   same_field_set [fd_id, fd_embedding, fd_text, fd_create_time] (c_fields memories0) \<and>
   fst (check_collection_schema_consistency ''memories'' schema0 world1) = Inr True \<and>
   fst (check_collection_schema_consistency ''memories'' schema0 world_closed) = Inr True \<and>
   \<not> same_field_set [fd_id, fd_embedding\<lparr>fd_dim := Some 8\<rparr>, fd_text, fd_create_time]
       (c_fields memories0) \<and>
   fst (check_collection_schema_consistency ''memories'' schema_dim8 world1) = Inr False \<and>
   \<not> same_field_set [] (c_fields memories0) \<and>
   fst (check_collection_schema_consistency ''memories'' schema_empty world1) = Inr False"
proof -
  have h: "r_faults (remote world1) = {}" "r_faults (remote world_closed) = {}"
    "\<not> r_connected (remote world_closed)"
    "map_of (r_store (remote world1)) ''memories'' = Some memories0"
    "map_of (r_store (remote world_closed)) ''memories'' = Some memories0"
    "c_fields memories0 \<noteq> []" "distinct (map fs_name (c_fields memories0))"
    by (simp_all add: example_defs)
  have s: "sch_fields schema0 = Some [fd_id, fd_embedding, fd_text, fd_create_time]"
    "sch_fields schema_dim8 =
       Some [fd_id, fd_embedding\<lparr>fd_dim := Some 8\<rparr>, fd_text, fd_create_time]"
    "sch_fields schema_empty = Some []"
    by (simp_all add: schema0_def schema_dim8_def schema_empty_def)
  have m: "same_field_set [fd_id, fd_embedding, fd_text, fd_create_time] (c_fields memories0)"
    "\<not> same_field_set [fd_id, fd_embedding\<lparr>fd_dim := Some 8\<rparr>, fd_text, fd_create_time]
       (c_fields memories0)"
    by (simp_all add: same_field_set_def field_matches_def example_defs)
  have m0: "\<not> same_field_set [] (c_fields memories0)"
    by (auto simp add: same_field_set_def example_defs)
  from h s m m0
    check_schema_consistency_iff[OF h(1) h(4) h(6) h(7) s(1)]
    check_schema_consistency_iff[OF h(2) h(5) h(6) h(7) s(1)]
    check_schema_consistency_iff[OF h(1) h(4) h(6) h(7) s(2)]
    check_schema_consistency_iff[OF h(1) h(4) h(6) h(7) s(3)]
  show ?thesis by simp
qed

subsection \<open>\<open>search\<close> names the field \<open>embedding\<close>\<close>

lemma search_hits_frame:
  "\<exists>hs w'. search_hits hits acc w = (Inr hs, w') \<and> remote w' = remote w \<and>
     collections w' = collections w"
proof (induction hits arbitrary: acc w)
  case Nil
  show ?case by (simp add: ret_def)
next
  case (Cons hit hits)
  have A: "\<exists>hs w'. search_hits hits acc' (w\<lparr>logger := l\<rparr>) = (Inr hs, w') \<and>
      remote w' = remote w \<and> collections w' = collections w" for acc' l
    using Cons.IH[of acc' "w\<lparr>logger := l\<rparr>"] by simp
  have B: "\<exists>hs w'. search_hits hits acc' w = (Inr hs, w') \<and>
      remote w' = remote w \<and> collections w' = collections w" for acc'
    using Cons.IH[of acc' w] by simp
  show ?case
    by (simp add: bnd_def logmsg_def A B split: option.splits sum.splits error.splits)
qed

lemma search_results_frame:
  "\<exists>hs w'. search_results results acc w = (Inr hs, w') \<and> remote w' = remote w \<and>
     collections w' = collections w"
proof (induction results arbitrary: acc w)
  case Nil
  show ?case by (simp add: ret_def)
next
  case (Cons hits results)
  obtain hs w1 where 1: "search_hits hits acc w = (Inr hs, w1)" "remote w1 = remote w"
    "collections w1 = collections w"
    using search_hits_frame[of hits acc w] by blast
  obtain hs' w' where 2: "search_results results hs w1 = (Inr hs', w')" "remote w' = remote w1"
    "collections w' = collections w1"
    using Cons.IH[of hs w1] by blast
  show ?case using 1 2 by (simp add: bnd_def)
qed

lemma holds_frame:
  "remote w' = remote w \<Longrightarrow> collections w' = collections w \<Longrightarrow> holds i w' = holds i w"
  by (cases i) (simp_all add: cache_ok_def schema_of_def embedding_only_def)

lemma preserves_search_results: "preserves (holds i) (search_results results acc)"
  unfolding preserves_def
proof (intro allI impI)
  fix w assume h: "holds i w"
  obtain hs w' where r: "search_results results acc w = (Inr hs, w')" "remote w' = remote w"
    "collections w' = collections w"
    using search_results_frame[of results acc w] by blast
  from holds_frame[OF r(2,3), of i] h r(1)
  show "holds i (snd (search_results results acc w))" by simp
qed

lemma preserves_case_option:
  "preserves P a \<Longrightarrow> (\<And>x. preserves P (b x)) \<Longrightarrow>
   preserves P (case v of None \<Rightarrow> a | Some x \<Rightarrow> b x)"
  by (cases v) simp_all

lemma preserves_search: "preserves (holds i) (search n qv top_k fl)"
  unfolding search_def search_body_def
  by (intro preserves_try_except preserves_bnd preserves_case_option
      preserves_ensure_connection preserves_pure preserves_logmsg preserves_calls
      preserves_search_results)

lemma col_load_calls:
  "r_calls (remote (snd (col_load col w))) = r_calls (remote w) @ [Load (col_name col)]"
  by (simp add: col_load_def on_collection_def remote_call_def Let_def
      split: option.splits)

lemma col_search_calls:
  "r_calls (remote (snd (col_search col d a p top_k ex w))) =
   r_calls (remote w) @ [Search (col_name col) d a p top_k ex]"
  by (simp add: col_search_def on_collection_def remote_call_def Let_def
      split: option.splits)

lemma col_search_rejected:
  assumes "\<forall>fs. schema_of w (col_name col) = Some fs \<longrightarrow> \<not> is_vector_field fs a"
  shows "\<exists>e. fst (col_search col d a p top_k ex w) = Inl e"
  using assms
  by (simp add: col_search_def on_collection_def remote_call_def Let_def schema_of_def
      split: option.splits)

lemma try_except_log_remote:
  "remote (snd (try_except m (\<lambda>e. bnd (logmsg l msg) (\<lambda>_. ret x)) w)) = remote (snd (m w))"
  by (cases "m w") (simp add: try_except_def bnd_def logmsg_def ret_def split: sum.splits)

lemma bnd_search_results_remote:
  "remote (snd (bnd m (\<lambda>rs. search_results rs []) w)) = remote (snd (m w))"
proof (cases "m w")
  case (Pair res w')
  show ?thesis
  proof (cases res)
    case (Inl e)
    with Pair show ?thesis by (simp add: bnd_def)
  next
    case (Inr rs)
    obtain hs w'' where "search_results rs [] w' = (Inr hs, w'')" "remote w'' = remote w'"
      using search_results_frame[of rs "[]" w'] by blast
    with Pair Inr show ?thesis by (simp add: bnd_def)
  qed
qed

lemma search_trace:
  assumes "r_connected (remote w)" "r_faults (remote w) = {}"
    "map_of (collections w) n = Some col" "col_name col = n"
    "map_of (r_store (remote w)) n = Some cd"
  shows "r_calls (remote (snd (search n qv top_k fl w))) =
         r_calls (remote w) @ [Load n, Search n [qv] ''embedding'' search_params top_k fl]"
proof -
  define W1 where "W1 = snd (col_load col w)"
  have l: "col_load col w = (Inr (), W1)"
    using assms
    by (simp add: W1_def col_load_def on_collection_def remote_call_def Let_def)
  have c1: "r_calls (remote W1) = r_calls (remote w) @ [Load n]"
    using col_load_calls[of col w] assms(4) by (simp add: W1_def)
  have body: "search_body n qv top_k fl w =
      bnd (col_search col [qv] ''embedding'' search_params top_k fl)
        (\<lambda>rs. search_results rs []) W1"
    using assms(1,3) l
    by (simp add: search_body_def bnd_def ensure_connection_connected cache_get_def)
  show ?thesis
    using assms(4)
    by (simp add: search_def try_except_log_remote body bnd_search_results_remote
        col_search_calls c1)
qed

lemma schema_cond:
  "(\<forall>cd. map_of (r_store (remote w)) n = Some cd \<longrightarrow> \<not> is_vector_field (c_fields cd) a) =
   (\<forall>fs. schema_of w n = Some fs \<longrightarrow> \<not> is_vector_field fs a)"
  by (auto simp: schema_of_def)

lemma search_body_fails:
  assumes "cache_ok w"
    "\<forall>cd. map_of (r_store (remote w)) n = Some cd \<longrightarrow>
       \<not> is_vector_field (c_fields cd) ''embedding''"
  shows "\<exists>e. fst (search_body n qv top_k fl w) = Inl e"
proof -
  define F where "F = schema_of w n"
  have noF: "\<forall>fs. F = Some fs \<longrightarrow> \<not> is_vector_field fs ''embedding''"
    using assms(2) unfolding F_def schema_cond .
  define w1 where "w1 = snd (ensure_connection w)"
  have ok1: "cache_ok w1"
    using preservesD[OF preserves_ensure_connection[of CacheOk], of w] assms(1)
    by (simp add: w1_def)
  have F1: "schema_of w1 n = F"
    using preservesD[OF preserves_ensure_connection[of "SchemaIs n F"], of w]
    by (simp add: w1_def F_def)
  show ?thesis
  proof (cases "fst (ensure_connection w)")
    case (Inl e)
    then show ?thesis by (simp add: search_body_def bnd_Inl)
  next
    case (Inr u)
    then have e: "ensure_connection w = (Inr (), w1)" by (simp add: w1_def prod_eq_iff)
    show ?thesis
    proof (cases "map_of (collections w1) n")
      case None
      with e show ?thesis by (simp add: search_body_def bnd_def cache_get_def raise_def)
    next
      case (Some col)
      with ok1 have cn: "col_name col = n" by (simp add: cache_ok_def)
      define w2 where "w2 = snd (col_load col w1)"
      have F2: "schema_of w2 n = F"
        using preservesD[OF preserves_calls(5)[of "SchemaIs n F" col], of w1] F1
        by (simp add: w2_def)
      show ?thesis
      proof (cases "fst (col_load col w1)")
        case (Inl e')
        then have "col_load col w1 = (Inl e', w2)" by (simp add: w2_def prod_eq_iff)
        with e Some show ?thesis by (simp add: search_body_def bnd_def cache_get_def)
      next
        case (Inr u')
        then have l: "col_load col w1 = (Inr (), w2)" by (simp add: w2_def prod_eq_iff)
        from col_search_rejected[of w2 col "''embedding''" "[qv]" search_params top_k fl]
          F2 noF cn
        obtain e' where "fst (col_search col [qv] ''embedding'' search_params top_k fl w2) = Inl e'"
          by auto
        then have "bnd (col_search col [qv] ''embedding'' search_params top_k fl)
            (\<lambda>results. search_results results []) w2 =
            (Inl e', snd (col_search col [qv] ''embedding'' search_params top_k fl w2))"
          by (rule bnd_Inl)
        with e Some l show ?thesis by (simp add: search_body_def bnd_def cache_get_def)
      qed
    qed
  qed
qed

text \<open>
  Claim C10. Whatever the arguments and the state, \<open>search\<close> adds no vector search to
  the trace but on the field \<open>embedding\<close>. With the connection up, the engine answering,
  the handle cached and the collection present, the calls of \<open>search\<close> are \<open>load\<close> and
  one search of the query vector on the field \<open>embedding\<close>, with metric \<open>L2\<close> and
  \<open>nprobe = 10\<close>, whatever the fields of the collection are. When the collection has no
  \<open>FLOAT_VECTOR\<close> field named \<open>embedding\<close> (the engine rejects a search on any other
  name), the body of \<open>search\<close> raises in every state and \<open>search\<close> returns the empty
  list: such a collection is never searched with success.
\<close>

theorem search_uses_embedding_field:
  "(embedding_only w \<longrightarrow> embedding_only (snd (search n qv top_k fl w))) \<and>
   (r_connected (remote w) \<and> r_faults (remote w) = {} \<and>
    map_of (collections w) n = Some col \<and> col_name col = n \<and>
    map_of (r_store (remote w)) n = Some cd \<longrightarrow>
      r_calls (remote (snd (search n qv top_k fl w))) =
        r_calls (remote w) @ [Load n, Search n [qv] ''embedding'' search_params top_k fl]) \<and>
   (cache_ok w \<and>
    (\<forall>cd. map_of (r_store (remote w)) n = Some cd \<longrightarrow>
       \<not> is_vector_field (c_fields cd) ''embedding'') \<longrightarrow>
      (\<exists>e. fst (search_body n qv top_k fl w) = Inl e) \<and>
      fst (search n qv top_k fl w) = Inr [])"
proof -
  have a: "embedding_only (snd (search n qv top_k fl w))" if "embedding_only w"
    using preservesD[OF preserves_search[of EmbeddingOnly n qv top_k fl], of w] that by simp
  have b: "(\<exists>e. fst (search_body n qv top_k fl w) = Inl e) \<and>
      fst (search n qv top_k fl w) = Inr []"
    if "cache_ok w \<and> (\<forall>cd. map_of (r_store (remote w)) n = Some cd \<longrightarrow>
       \<not> is_vector_field (c_fields cd) ''embedding'')"
    using search_body_fails[of w n qv top_k fl] that search_absorbs[of n qv top_k fl w]
    by blast
  from a b search_trace[of w n col cd qv top_k fl] show ?thesis by blast
qed

theorem search_uses_embedding_field_witness:
  "embedding_only world_vec \<and> cache_ok world_vec \<and>
   r_connected (remote world_vec) \<and> r_faults (remote world_vec) = {} \<and>
   map_of (collections world_vec) ''docs'' = Some (Collection ''docs'' fields_vec) \<and>
   is_vector_field fields_vec ''vec'' \<and> \<not> is_vector_field fields_vec ''embedding'' \<and>
   r_calls (remote (snd (search ''docs'' [0, 0, 0, 1] 1 None world_vec))) =
     [Load ''docs'', Search ''docs'' [[0, 0, 0, 1]] ''embedding'' search_params 1 None] \<and>
   embedding_only (snd (search ''docs'' [0, 0, 0, 1] 1 None world_vec)) \<and>
   fst (search ''docs'' [0, 0, 0, 1] 1 None world_vec) = Inr []"
proof -
  have h: "embedding_only world_vec" "cache_ok world_vec"
    "r_connected (remote world_vec)" "r_faults (remote world_vec) = {}"
    "map_of (collections world_vec) ''docs'' = Some (Collection ''docs'' fields_vec)"
    "is_vector_field fields_vec ''vec''" "\<not> is_vector_field fields_vec ''embedding''"
    by (simp_all add: embedding_only_def cache_ok_def world_vec_def fields_vec_def
        is_vector_field_def example_defs)
  have s: "map_of (r_store (remote world_vec)) ''docs'' =
      Some ((new_collection fields_vec [])
                  \<lparr>c_indexes := [(''vec'', default_index_params)],
                   c_rows := [[(''id'', VInt 1), (''vec'', VVec [0, 0, 0, 1])]]\<rparr>)"
    by (simp add: world_vec_def example_defs)
  have n: "\<forall>cd. map_of (r_store (remote world_vec)) ''docs'' = Some cd \<longrightarrow>
       \<not> is_vector_field (c_fields cd) ''embedding''"
    using h(7) by (simp add: s new_collection_def)
  have c: "r_calls (remote world_vec) = []"
    by (simp add: world_vec_def example_defs)
  from search_uses_embedding_field[of world_vec "''docs''" "[0, 0, 0, 1]" 1 None
      "Collection ''docs'' fields_vec" "(new_collection fields_vec [])
                  \<lparr>c_indexes := [(''vec'', default_index_params)],
                   c_rows := [[(''id'', VInt 1), (''vec'', VVec [0, 0, 0, 1])]]\<rparr>"]
    h s n c
  show ?thesis by simp
qed
end
